theory Spec2Isabelle
  imports Complex_Main
begin

section \<open>Numbers\<close>

text \<open>
  The program computes with JavaScript numbers.  They are modelled as the real numbers:
  the rounding of double-precision arithmetic, NaN and signed zeros are not part of the
  model.  The rounding to 32 bits of a store into the particle arrays is modelled for the
  bound on the positions, by a second rendering of the loop that rounds each store.
  Where the program can leave the finite numbers, in the division
  \<open>1 / fps\<close> of \<open>useFrameRate\<close>, which is \<open>Infinity\<close> for \<open>fps = 0\<close>, the infinite value
  is written out (\<open>None\<close>), since division by zero in HOL is \<open>0\<close>.
\<close>

section \<open>The rate-limited scheduler (src/utils/useFrameRate.jsx)\<close>

text \<open>One render tick as \<open>useFrame\<close> hands it to its subscriber:
  \<open>state.clock.elapsedTime\<close> and the \<open>delta\<close> argument.\<close>

record tick =
  elapsedTime :: real
  delta :: real

text \<open>The two refs of \<open>useFrameRate\<close>, both created as \<open>useRef(0)\<close>.\<close>

record frameRateRefs =
  frameRef :: real
  lastTimeRef :: real

definition initialRefs :: frameRateRefs where
  "initialRefs = \<lparr>frameRef = 0, lastTimeRef = 0\<rparr>"

text \<open>What one call \<open>callback(state, actualDelta)\<close> receives.\<close>

record invocation =
  currentTime :: real
  actualDelta :: real

text \<open>\<open>const targetInterval = 1 / fps\<close>; \<open>None\<close> is JavaScript's \<open>Infinity\<close>.\<close>

definition targetInterval :: "real \<Rightarrow> real option" where
  "targetInterval fps = (if fps = 0 then None else Some (1 / fps))"

text \<open>\<open>frameRef.current >= targetInterval\<close>: no finite number reaches \<open>Infinity\<close>.\<close>

definition reached :: "real \<Rightarrow> real option \<Rightarrow> bool" where
  "reached acc interval = (case interval of None \<Rightarrow> False | Some t \<Rightarrow> t \<le> acc)"

text \<open>The body of the \<open>useFrame\<close> subscriber of \<open>useFrameRate(callback, fps, enabled)\<close>:
  the new refs, and the arguments of the callback when it is called on this tick.\<close>

definition useFrameRate :: "real \<Rightarrow> bool \<Rightarrow> frameRateRefs \<Rightarrow> tick \<Rightarrow> frameRateRefs \<times> invocation option" where
  "useFrameRate fps enabled r tk =
     (if \<not> enabled then (r, None)
      else
        let acc = frameRef r + delta tk in
        if reached acc (targetInterval fps) then
          (\<lparr>frameRef = 0, lastTimeRef = elapsedTime tk\<rparr>,
           Some \<lparr>currentTime = elapsedTime tk, actualDelta = elapsedTime tk - lastTimeRef r\<rparr>)
        else (r\<lparr>frameRef := acc\<rparr>, None))"

text \<open>A sequence of render ticks: the refs at the end and, tick by tick, what the
  callback was called with.\<close>

fun runTicks :: "real \<Rightarrow> bool \<Rightarrow> frameRateRefs \<Rightarrow> tick list \<Rightarrow> frameRateRefs \<times> (tick \<times> invocation option) list" where
  "runTicks fps enabled r [] = (r, [])"
| "runTicks fps enabled r (tk # tks) =
     (let (r', out) = useFrameRate fps enabled r tk;
          (r'', tr) = runTicks fps enabled r' tks
      in (r'', (tk, out) # tr))"

text \<open>Read off a trace, in the words of the specification: the elapsed time of the
  previous invocation (\<open>0\<close>, the initial \<open>lastFireTime\<close>, when there was none), and the
  delta time accumulated on the ticks since it.\<close>

definition fired :: "tick \<times> invocation option \<Rightarrow> bool" where
  "fired e = (snd e \<noteq> None)"

definition previousInvocationTime :: "(tick \<times> invocation option) list \<Rightarrow> real" where
  "previousInvocationTime tr =
     (case filter fired (rev tr) of [] \<Rightarrow> 0 | e # _ \<Rightarrow> elapsedTime (fst e))"

definition accumulatedSince :: "(tick \<times> invocation option) list \<Rightarrow> real" where
  "accumulatedSince tr = sum_list (map (\<lambda>e. delta (fst e)) (takeWhile (\<lambda>e. \<not> fired e) (rev tr)))"

definition invocations :: "(tick \<times> invocation option) list \<Rightarrow> nat" where
  "invocations tr = length (filter fired tr)"

text \<open>Three render ticks at 50 ticks per second, used as a concrete run.\<close>

definition exampleTicks :: "tick list" where
  "exampleTicks =
     [\<lparr>elapsedTime = 1/50, delta = 1/50\<rparr>, \<lparr>elapsedTime = 2/50, delta = 1/50\<rparr>,
      \<lparr>elapsedTime = 3/50, delta = 1/50\<rparr>]"

section \<open>The particle simulator (src/utils/useOptimizedParticles.jsx)\<close>

text \<open>The options of \<open>useOptimizedParticles\<close>; \<open>boundsZ\<close> is \<open>bounds.z\<close>.\<close>

record particleOptions =
  maxRadius :: real
  floatSpeed :: real
  floatAmplitude :: real
  dampening :: real
  boundsZ :: real

definition defaultOptions :: particleOptions where
  "defaultOptions =
     \<lparr>maxRadius = 0.8, floatSpeed = 0.5, floatAmplitude = 0.001, dampening = 0.998, boundsZ = 0.15\<rparr>"

text \<open>One entry of \<open>preCalculatedValues\<close> (the fields \<open>sin\<close> and \<open>cos\<close> are \<open>preSin\<close>
  and \<open>preCos\<close> here).\<close>

record preCalc =
  preSin :: real
  preCos :: real
  speed :: real
  amplitude :: real
  phase :: real

definition preCalcEntry :: "particleOptions \<Rightarrow> nat \<Rightarrow> preCalc" where
  "preCalcEntry opts i =
     \<lparr>preSin = sin (real i * 0.1),
      preCos = cos (real i * 0.1),
      speed = floatSpeed opts + real (i mod 3) * 0.3,
      amplitude = floatAmplitude opts + real (i mod 2) * 0.0005,
      phase = real i * 0.1\<rparr>"

definition preCalculatedValues :: "particleOptions \<Rightarrow> nat \<Rightarrow> preCalc list" where
  "preCalculatedValues opts count = map (preCalcEntry opts) [0..<count]"

text \<open>The two arrays \<open>positions.current\<close> and \<open>velocities.current\<close>, each of length
  \<open>count * 3\<close>; particle \<open>p\<close> owns the indices \<open>3 * p\<close>, \<open>3 * p + 1\<close>, \<open>3 * p + 2\<close>.\<close>

record particles =
  positions :: "real list"
  velocities :: "real list"

definition emptyParticles :: "nat \<Rightarrow> particles" where
  "emptyParticles count = \<lparr>positions = replicate (count * 3) 0, velocities = replicate (count * 3) 0\<rparr>"

text \<open>Initialization.  \<open>Math.random()\<close> is the stream \<open>rnd\<close> of numbers in \<open>[0, 1)\<close>;
  particle \<open>p\<close> takes the six draws \<open>6 * p\<close> to \<open>6 * p + 5\<close>, in the order of the source.\<close>

definition initParticle :: "(nat \<Rightarrow> real) \<Rightarrow> particles \<Rightarrow> nat \<Rightarrow> particles" where
  "initParticle rnd st p =
     (let i = 3 * p;
          pos = (positions st)[i := (rnd (6 * p) - 0.5) * 2];
          pos = pos[i + 1 := (rnd (6 * p + 1) - 0.5) * 2];
          pos = pos[i + 2 := (rnd (6 * p + 2) - 0.5) * 0.3];
          vel = (velocities st)[i := (rnd (6 * p + 3) - 0.5) * 0.001];
          vel = vel[i + 1 := (rnd (6 * p + 4) - 0.5) * 0.001];
          vel = vel[i + 2 := (rnd (6 * p + 5) - 0.5) * 0.0002]
      in \<lparr>positions = pos, velocities = vel\<rparr>)"

definition initParticles :: "nat \<Rightarrow> (nat \<Rightarrow> real) \<Rightarrow> particles" where
  "initParticles count rnd = foldl (initParticle rnd) (emptyParticles count) [0..<count]"

text \<open>\<open>Math.atan2(y, x)\<close> on the reals.\<close>

definition atan2 :: "real \<Rightarrow> real \<Rightarrow> real" where
  "atan2 y x =
     (if 0 < x then arctan (y / x)
      else if x < 0 \<and> 0 \<le> y then arctan (y / x) + pi
      else if x < 0 \<and> y < 0 then arctan (y / x) - pi
      else if 0 < y then pi / 2
      else if y < 0 then - pi / 2
      else 0)"

text \<open>The body of the loop of \<open>updateParticles\<close> on the six numbers of one particle
  \<open>(pos[i], pos[i + 1], pos[i + 2], vel[i], vel[i + 1], vel[i + 2])\<close>, statement by
  statement.\<close>

type_synonym particle = "real \<times> real \<times> real \<times> real \<times> real \<times> real"

definition stepParticle :: "particleOptions \<Rightarrow> preCalc \<Rightarrow> real \<Rightarrow> particle \<Rightarrow> particle" where
  "stepParticle opts pc time q =
     (case q of (x, y, z, vx, vy, vz) \<Rightarrow>
        let x = x + vx;
            y = y + vy;
            z = z + vz;
            timeOffset = time * speed pc + phase pc;
            x = x + sin timeOffset * amplitude pc;
            y = y + cos (timeOffset * 0.7) * amplitude pc;
            z = z + sin (timeOffset * 0.5) * amplitude pc * 0.5;
            vx = vx * dampening opts;
            vy = vy * dampening opts;
            vz = vz * dampening opts;
            distance = sqrt (x * x + y * y);
            (x, y, vx, vy) =
              (if distance > maxRadius opts then
                 let angle = atan2 y x
                 in (cos angle * maxRadius opts * 0.9, sin angle * maxRadius opts * 0.9,
                     vx * (- 0.3), vy * (- 0.3))
               else (x, y, vx, vy));
            (z, vz) =
              (if \<bar>z\<bar> > boundsZ opts then (sgn z * boundsZ opts, vz * (- 0.3)) else (z, vz))
        in (x, y, z, vx, vy, vz))"

definition readParticle :: "particles \<Rightarrow> nat \<Rightarrow> particle" where
  "readParticle st p =
     (let i = 3 * p; pos = positions st; vel = velocities st
      in (pos ! i, pos ! (i + 1), pos ! (i + 2), vel ! i, vel ! (i + 1), vel ! (i + 2)))"

definition writeParticle :: "particles \<Rightarrow> nat \<Rightarrow> particle \<Rightarrow> particles" where
  "writeParticle st p q =
     (case q of (x, y, z, vx, vy, vz) \<Rightarrow>
        let i = 3 * p
        in \<lparr>positions = (positions st)[i := x, i + 1 := y, i + 2 := z],
            velocities = (velocities st)[i := vx, i + 1 := vy, i + 2 := vz]\<rparr>)"

text \<open>\<open>updateParticles(state)\<close> with \<open>time = state.clock.elapsedTime\<close>: the loop over the
  particles \<open>0, \<dots>, count - 1\<close>.\<close>

definition updateParticle :: "particleOptions \<Rightarrow> nat \<Rightarrow> real \<Rightarrow> particles \<Rightarrow> nat \<Rightarrow> particles" where
  "updateParticle opts count time st p =
     writeParticle st p (stepParticle opts (preCalculatedValues opts count ! p) time (readParticle st p))"

definition updateParticles :: "particleOptions \<Rightarrow> nat \<Rightarrow> real \<Rightarrow> particles \<Rightarrow> particles" where
  "updateParticles opts count time st = foldl (updateParticle opts count time) st [0..<count]"

text \<open>Any number of advance ticks, at the elapsed times \<open>ts\<close>.\<close>

definition advance :: "particleOptions \<Rightarrow> nat \<Rightarrow> real list \<Rightarrow> particles \<Rightarrow> particles" where
  "advance opts count ts st = foldl (\<lambda>s t. updateParticles opts count t s) st ts"

text \<open>The planar distance from the origin and the height of particle \<open>p\<close>.\<close>

definition planarDistance :: "particles \<Rightarrow> nat \<Rightarrow> real" where
  "planarDistance st p = sqrt ((positions st ! (3 * p))\<^sup>2 + (positions st ! (3 * p + 1))\<^sup>2)"

definition height :: "particles \<Rightarrow> nat \<Rightarrow> real" where
  "height st p = positions st ! (3 * p + 2)"

subsection \<open>The stores into the Float32 arrays\<close>

text \<open>\<open>positions.current\<close> and \<open>velocities.current\<close> are \<open>Float32Array\<close>s: every
  assignment to an element stores the value rounded to 32 bits, and every later read
  gives the rounded value back.  The definitions above leave this rounding out.  Below,
  the same initialization and the same loop body are written with each store rounded by
  \<open>fround\<close> (JavaScript's \<open>Math.fround\<close>, the conversion a \<open>Float32Array\<close> store
  applies), which is a parameter; the arithmetic between two stores stays that of the
  real numbers.  On every number that a store does not overflow on, \<open>Math.fround\<close> has a
  relative error of at most \<open>2\<^sup>-\<^sup>2\<^sup>4\<close> or, on the smallest numbers, an absolute error of at
  most \<open>2\<^sup>-\<^sup>1\<^sup>5\<^sup>0\<close>.\<close>

definition initParticleF :: "(real \<Rightarrow> real) \<Rightarrow> (nat \<Rightarrow> real) \<Rightarrow> particles \<Rightarrow> nat \<Rightarrow> particles" where
  "initParticleF fround rnd st p =
     (let i = 3 * p;
          pos = (positions st)[i := fround ((rnd (6 * p) - 0.5) * 2)];
          pos = pos[i + 1 := fround ((rnd (6 * p + 1) - 0.5) * 2)];
          pos = pos[i + 2 := fround ((rnd (6 * p + 2) - 0.5) * 0.3)];
          vel = (velocities st)[i := fround ((rnd (6 * p + 3) - 0.5) * 0.001)];
          vel = vel[i + 1 := fround ((rnd (6 * p + 4) - 0.5) * 0.001)];
          vel = vel[i + 2 := fround ((rnd (6 * p + 5) - 0.5) * 0.0002)]
      in \<lparr>positions = pos, velocities = vel\<rparr>)"

definition initParticlesF :: "(real \<Rightarrow> real) \<Rightarrow> nat \<Rightarrow> (nat \<Rightarrow> real) \<Rightarrow> particles" where
  "initParticlesF fround count rnd = foldl (initParticleF fround rnd) (emptyParticles count) [0..<count]"

definition stepParticleF :: "(real \<Rightarrow> real) \<Rightarrow> particleOptions \<Rightarrow> preCalc \<Rightarrow> real \<Rightarrow> particle \<Rightarrow> particle" where
  "stepParticleF fround opts pc time q =
     (case q of (x, y, z, vx, vy, vz) \<Rightarrow>
        let x = fround (x + vx);
            y = fround (y + vy);
            z = fround (z + vz);
            timeOffset = time * speed pc + phase pc;
            x = fround (x + sin timeOffset * amplitude pc);
            y = fround (y + cos (timeOffset * 0.7) * amplitude pc);
            z = fround (z + sin (timeOffset * 0.5) * amplitude pc * 0.5);
            vx = fround (vx * dampening opts);
            vy = fround (vy * dampening opts);
            vz = fround (vz * dampening opts);
            distance = sqrt (x * x + y * y);
            (x, y, vx, vy) =
              (if distance > maxRadius opts then
                 let angle = atan2 y x
                 in (fround (cos angle * maxRadius opts * 0.9), fround (sin angle * maxRadius opts * 0.9),
                     fround (vx * (- 0.3)), fround (vy * (- 0.3)))
               else (x, y, vx, vy));
            (z, vz) =
              (if \<bar>z\<bar> > boundsZ opts then (fround (sgn z * boundsZ opts), fround (vz * (- 0.3)))
               else (z, vz))
        in (x, y, z, vx, vy, vz))"

definition updateParticleF ::
    "(real \<Rightarrow> real) \<Rightarrow> particleOptions \<Rightarrow> nat \<Rightarrow> real \<Rightarrow> particles \<Rightarrow> nat \<Rightarrow> particles" where
  "updateParticleF fround opts count time st p =
     writeParticle st p
       (stepParticleF fround opts (preCalculatedValues opts count ! p) time (readParticle st p))"

definition updateParticlesF ::
    "(real \<Rightarrow> real) \<Rightarrow> particleOptions \<Rightarrow> nat \<Rightarrow> real \<Rightarrow> particles \<Rightarrow> particles" where
  "updateParticlesF fround opts count time st =
     foldl (updateParticleF fround opts count time) st [0..<count]"

definition advanceF ::
    "(real \<Rightarrow> real) \<Rightarrow> particleOptions \<Rightarrow> nat \<Rightarrow> real list \<Rightarrow> particles \<Rightarrow> particles" where
  "advanceF fround opts count ts st = foldl (\<lambda>s t. updateParticlesF fround opts count t s) st ts"

text \<open>A store rounding for concrete runs: to the nearest multiple of \<open>2\<^sup>-\<^sup>2\<^sup>6\<close>, which is the
  spacing of the 32-bit numbers between \<open>0.125\<close> and \<open>0.25\<close>; it takes \<open>0.15\<close> to
  \<open>10066330 / 2\<^sup>2\<^sup>6 = 0.15000000596\<dots>\<close>, as \<open>Math.fround\<close> does.\<close>

definition roundToGrid :: "real \<Rightarrow> real" where
  "roundToGrid x = of_int (round (x * 2 ^ 26)) / 2 ^ 26"

section \<open>The camera\<close>

type_synonym vec3 = "real \<times> real \<times> real"

type_synonym quat = "real \<times> real \<times> real \<times> real"

text \<open>The camera as both components see it.  \<open>orientationWriters\<close> is not a field of the
  source: it logs, in order, which component assigned \<open>camera.quaternion\<close> during the
  current render frame.\<close>

datatype writer = Parallax | StateMachine

record camera =
  position :: vec3
  quaternion :: quat
  fov :: real
  orientationWriters :: "writer list"

text \<open>The functions of three.js, maath and gsap that the components call are not part of
  the repository; they are parameters of the model.  \<open>lookAt eye target up\<close> is the
  rotation of \<open>Matrix4.lookAt\<close> as a quaternion (\<open>Object3D.lookAt\<close> computes it from the
  object's own position); \<open>dampQ\<close>, \<open>damp3\<close> and \<open>damp\<close> are \<open>easing.dampQ\<close>,
  \<open>easing.damp3\<close> and \<open>easing.damp\<close> as functions of the current value, the target, the
  smooth time and \<open>dt\<close>; \<open>ease\<close> is gsap's \<open>power1.inOut\<close>.\<close>

record library =
  lookAt :: "vec3 \<Rightarrow> vec3 \<Rightarrow> vec3 \<Rightarrow> quat"
  dampQ :: "quat \<Rightarrow> quat \<Rightarrow> real \<Rightarrow> real \<Rightarrow> quat"
  damp3 :: "vec3 \<Rightarrow> vec3 \<Rightarrow> real \<Rightarrow> real \<Rightarrow> vec3"
  damp :: "real \<Rightarrow> real \<Rightarrow> real \<Rightarrow> real \<Rightarrow> real"
  ease :: "real \<Rightarrow> real"

text \<open>A library whose damping functions reach their target at once, for concrete runs.\<close>

definition snapLibrary :: library where
  "snapLibrary =
     \<lparr>lookAt = (\<lambda>eye target up. (0, 0, 0, 1)),
      dampQ = (\<lambda>current target smoothTime dt. target),
      damp3 = (\<lambda>current target smoothTime dt. target),
      damp = (\<lambda>current target smoothTime dt. target),
      ease = (\<lambda>progress. progress)\<rparr>"

definition defaultUp :: vec3 where
  "defaultUp = (0, 1, 0)"

text \<open>Modelled from the spec: \<open>Vector3.lerp(v, alpha)\<close> of three.js, which is not under
  src/: the linear interpolation of each coordinate toward \<open>v\<close> with blend factor
  \<open>alpha\<close>.\<close>

definition lerp :: "vec3 \<Rightarrow> vec3 \<Rightarrow> real \<Rightarrow> vec3" where
  "lerp this v alpha =
     (case (this, v) of ((x, y, z), (vx, vy, vz)) \<Rightarrow>
        (x + (vx - x) * alpha, y + (vy - y) * alpha, z + (vz - z) * alpha))"

subsection \<open>The mouse parallax controller (src/MouseCameraController.jsx)\<close>

record mouseController =
  mouseX :: real
  basePositionRef :: vec3
  targetPositionRef :: vec3

definition MAX_HORIZONTAL_OFFSET :: real where
  "MAX_HORIZONTAL_OFFSET = 0.5"

definition LERP_SPEED :: real where
  "LERP_SPEED = 0.05"

text \<open>The refs at mount and the effect that copies the camera's position.\<close>

definition attachController :: "camera \<Rightarrow> mouseController" where
  "attachController cam =
     \<lparr>mouseX = 0, basePositionRef = position cam, targetPositionRef = (0, 0, 0)\<rparr>"

text \<open>\<open>handleMouseMove(event)\<close> with \<open>event.clientX\<close> and \<open>window.innerWidth\<close>.  For a
  viewport of width \<open>0\<close> the quotient of the source is not a finite number, and the value
  here (\<open>x / 0 = 0\<close> in HOL) is not the program's; the properties below are about a
  positive width.\<close>

definition handleMouseMove :: "real \<Rightarrow> real \<Rightarrow> mouseController \<Rightarrow> mouseController" where
  "handleMouseMove clientX innerWidth m = m\<lparr>mouseX := (clientX / innerWidth) * 2 - 1\<rparr>"

text \<open>The \<open>useFrame\<close> subscriber of the controller; \<open>lookAtRef\<close> is
  \<open>lookAtRef.current.position\<close>, or \<open>None\<close> while \<open>lookAtRef.current\<close> is not set.\<close>

definition mouseUseFrame ::
    "library \<Rightarrow> vec3 option \<Rightarrow> mouseController \<Rightarrow> camera \<Rightarrow> mouseController \<times> camera" where
  "mouseUseFrame lib lookAtRef m cam =
     (let targetX = fst (basePositionRef m) + mouseX m * MAX_HORIZONTAL_OFFSET;
          m = m\<lparr>targetPositionRef :=
                 (targetX, fst (snd (basePositionRef m)), snd (snd (basePositionRef m)))\<rparr>;
          cam = cam\<lparr>position := lerp (position cam) (targetPositionRef m) LERP_SPEED\<rparr>
      in case lookAtRef of
           Some target \<Rightarrow>
             (m, cam\<lparr>quaternion := lookAt lib (position cam) target defaultUp,
                     orientationWriters := orientationWriters cam @ [Parallax]\<rparr>)
         | None \<Rightarrow> (m, cam))"

subsection \<open>The camera state machine (the Frames component)\<close>

text \<open>An object of the scene graph below the group of \<open>Frames\<close>: its identity, its name
  and the \<open>localToWorld\<close> of its parent.\<close>

record sceneObject =
  objectId :: nat
  name :: string
  parentLocalToWorld :: "vec3 \<Rightarrow> vec3"

text \<open>The props of \<open>Frames\<close> that the state machine reads; \<open>objects\<close> are the objects
  that \<open>ref.current.getObjectByName\<close> searches, in its order.\<close>

record props =
  initialFov :: real
  section2Position :: vec3
  section2LookAtTarget :: vec3
  objects :: "sceneObject list"

text \<open>What gsap has been asked to do and has not finished: the tween of
  \<open>camera.position\<close> (start time, duration, start and end value; its \<open>onComplete\<close> is the
  one of the zoom-out effect) and the delayed call of the completion callback (the time
  it is due).\<close>

datatype gsapTask =
  Tween real real vec3 vec3
| DelayedCall real

text \<open>The state and refs of \<open>Frames\<close>, with the \<open>isZoomed\<close> state of its parent, the
  number of calls of \<open>clearActiveClasses\<close> so far, and gsap's pending tasks.\<close>

record frames =
  selectedFrameId :: "string option"
  isAnimatingOut :: bool
  isZoomed :: bool
  targetFovRef :: real
  clicked :: "sceneObject option"
  finalZoomInPosition :: vec3
  frameCenterWorld :: vec3
  zoomInTargetQ :: quat
  zoomOutTargetQ :: quat
  clearActiveClassesCalls :: nat
  timeline :: "gsapTask list"

definition GOLDENRATIO :: real where
  "GOLDENRATIO = 1"

text \<open>JavaScript's truth value of \<open>selectedFrameId\<close>: \<open>null\<close> and the empty string are
  false.\<close>

definition truthy :: "string option \<Rightarrow> bool" where
  "truthy s = (case s of None \<Rightarrow> False | Some n \<Rightarrow> n \<noteq> [])"

definition calculateLookAtQuaternion :: "library \<Rightarrow> vec3 \<Rightarrow> vec3 \<Rightarrow> quat" where
  "calculateLookAtQuaternion lib eye target = lookAt lib eye target (0, 1, 0)"

text \<open>\<open>ref.current?.getObjectByName(selectedFrameId)\<close>: the first object of that name;
  no object has the name \<open>null\<close>.\<close>

definition getObjectByName :: "sceneObject list \<Rightarrow> string option \<Rightarrow> sceneObject option" where
  "getObjectByName objs n = (case n of None \<Rightarrow> None | Some s \<Rightarrow> find (\<lambda>ob. name ob = s) objs)"

text \<open>The effect for the zoom in, which runs when \<open>selectedFrameId\<close> has changed.\<close>

definition zoomInEffect :: "library \<Rightarrow> props \<Rightarrow> frames \<Rightarrow> frames" where
  "zoomInEffect lib pr st =
     (let st = st\<lparr>clicked := getObjectByName (objects pr) (selectedFrameId st)\<rparr>
      in case clicked st of
           Some ob \<Rightarrow>
             let finalPos = parentLocalToWorld ob (0, GOLDENRATIO / 2, 1.25);
                 center = parentLocalToWorld ob (0, GOLDENRATIO / 2, 0.7)
             in st\<lparr>finalZoomInPosition := finalPos,
                    frameCenterWorld := center,
                    zoomInTargetQ := calculateLookAtQuaternion lib finalPos center,
                    isZoomed := True,
                    targetFovRef := 70\<rparr>
         | None \<Rightarrow> st)"

text \<open>\<open>setSelectedFrameId(id)\<close> and the render after it: the effect runs only when the
  state has changed.\<close>

definition setSelectedFrameId :: "library \<Rightarrow> props \<Rightarrow> string option \<Rightarrow> frames \<Rightarrow> frames" where
  "setSelectedFrameId lib pr v st =
     (if selectedFrameId st = v then st else zoomInEffect lib pr (st\<lparr>selectedFrameId := v\<rparr>))"

text \<open>\<open>select(id)\<close>: the branch of \<open>onClick\<close> for an object that is not the clicked one.\<close>

definition select :: "library \<Rightarrow> props \<Rightarrow> string \<Rightarrow> frames \<Rightarrow> frames" where
  "select lib pr n st = (if \<not> isAnimatingOut st then setSelectedFrameId lib pr (Some n) st else st)"

definition triggerZoomOut :: "props \<Rightarrow> frames \<Rightarrow> frames" where
  "triggerZoomOut pr st =
     (if \<not> isAnimatingOut st \<and> truthy (selectedFrameId st)
      then st\<lparr>targetFovRef := initialFov pr, isAnimatingOut := True\<rparr>
      else st)"

text \<open>The effect for the zoom out, at gsap's time \<open>now\<close>.\<close>

definition zoomOutEffect :: "library \<Rightarrow> props \<Rightarrow> real \<Rightarrow> camera \<Rightarrow> frames \<Rightarrow> frames" where
  "zoomOutEffect lib pr now cam st =
     (if isAnimatingOut st then
        st\<lparr>zoomOutTargetQ := calculateLookAtQuaternion lib (section2Position pr) (section2LookAtTarget pr),
           timeline := timeline st @ [Tween now 1.2 (position cam) (section2Position pr)]\<rparr>
      else st)"

text \<open>A call of \<open>triggerZoomOut\<close> and the render after it: the zoom-out effect runs only
  when \<open>isAnimatingOut\<close> has changed.\<close>

definition fireTriggerZoomOut :: "library \<Rightarrow> props \<Rightarrow> real \<Rightarrow> camera \<Rightarrow> frames \<Rightarrow> frames" where
  "fireTriggerZoomOut lib pr now cam st =
     (let st' = triggerZoomOut pr st
      in if isAnimatingOut st' = isAnimatingOut st then st' else zoomOutEffect lib pr now cam st')"

definition onClick :: "library \<Rightarrow> props \<Rightarrow> real \<Rightarrow> camera \<Rightarrow> sceneObject \<Rightarrow> frames \<Rightarrow> frames" where
  "onClick lib pr now cam ob st =
     (if clicked st = Some ob then fireTriggerZoomOut lib pr now cam st
      else select lib pr (name ob) st)"

text \<open>The callback of \<open>gsap.delayedCall(0.5, \<dots>)\<close> and the render after it.\<close>

definition zoomOutComplete :: "library \<Rightarrow> props \<Rightarrow> frames \<Rightarrow> frames" where
  "zoomOutComplete lib pr st =
     (let st = st\<lparr>clearActiveClassesCalls := clearActiveClassesCalls st + 1\<rparr>;
          st = st\<lparr>isAnimatingOut := False\<rparr>;
          st = st\<lparr>isZoomed := False\<rparr>
      in setSelectedFrameId lib pr None st)"

text \<open>Modelled from the spec: the engine of gsap, which is not under src/.  A tween is a
  finite-duration, time-parameterized interpolation with an easing curve and a completion
  callback: on an engine tick at time \<open>now\<close>, a tween whose duration has elapsed sets its
  end value and runs \<open>onComplete\<close>, here \<open>gsap.delayedCall(0.5, \<dots>)\<close>; a tween still
  running sets the eased value; a delayed call that is due runs its callback; a task made
  during a tick is looked at from the next tick on.\<close>

fun gsapTaskTick ::
    "library \<Rightarrow> props \<Rightarrow> real \<Rightarrow> gsapTask \<Rightarrow> frames \<times> camera \<Rightarrow> (frames \<times> camera) \<times> gsapTask list" where
  "gsapTaskTick lib pr now (Tween start duration from to) (st, cam) =
     (if duration \<le> now - start then
        ((st, cam\<lparr>position := to\<rparr>), [DelayedCall (now + 0.5)])
      else
        ((st, cam\<lparr>position := lerp from to (ease lib ((now - start) / duration))\<rparr>),
         [Tween start duration from to]))"
| "gsapTaskTick lib pr now (DelayedCall due) (st, cam) =
     (if due \<le> now then ((zoomOutComplete lib pr st, cam), [])
      else ((st, cam), [DelayedCall due]))"

fun gsapTasksTick ::
    "library \<Rightarrow> props \<Rightarrow> real \<Rightarrow> gsapTask list \<Rightarrow> frames \<times> camera \<Rightarrow> (frames \<times> camera) \<times> gsapTask list" where
  "gsapTasksTick lib pr now [] w = (w, [])"
| "gsapTasksTick lib pr now (task # tasks) w =
     (let (w', rest) = gsapTaskTick lib pr now task w;
          (w'', rests) = gsapTasksTick lib pr now tasks w'
      in (w'', rest @ rests))"

definition gsapTick :: "library \<Rightarrow> props \<Rightarrow> frames \<times> camera \<Rightarrow> real \<Rightarrow> frames \<times> camera" where
  "gsapTick lib pr w now =
     (let ((st, cam), tasks) = gsapTasksTick lib pr now (timeline (fst w)) w
      in (st\<lparr>timeline := tasks\<rparr>, cam))"

text \<open>Engine ticks at the times \<open>ts\<close>, one after the other.\<close>

definition gsapTicks :: "library \<Rightarrow> props \<Rightarrow> real list \<Rightarrow> frames \<times> camera \<Rightarrow> frames \<times> camera" where
  "gsapTicks lib pr ts w = foldl (gsapTick lib pr) w ts"

text \<open>The \<open>useFrame\<close> subscriber of \<open>Frames\<close>.\<close>

definition framesUseFrame :: "library \<Rightarrow> real \<Rightarrow> frames \<Rightarrow> camera \<Rightarrow> camera" where
  "framesUseFrame lib dt st cam =
     (let fovChanged = \<bar>fov cam - targetFovRef st\<bar> > 0.01;
          cam = (if fovChanged then cam\<lparr>fov := damp lib (fov cam) (targetFovRef st) 0.4 dt\<rparr> else cam)
      in if isAnimatingOut st then
           cam\<lparr>quaternion := dampQ lib (quaternion cam) (zoomOutTargetQ st) 0.5 dt,
               orientationWriters := orientationWriters cam @ [StateMachine]\<rparr>
         else if truthy (selectedFrameId st) \<and> clicked st \<noteq> None then
           cam\<lparr>position := damp3 lib (position cam) (finalZoomInPosition st) 0.4 dt,
               quaternion := dampQ lib (quaternion cam) (zoomInTargetQ st) 0.4 dt,
               orientationWriters := orientationWriters cam @ [StateMachine]\<rparr>
         else cam)"

text \<open>The state of the machine, by the branch of its \<open>useFrame\<close> subscriber that runs.\<close>

datatype cameraState = Idle | ZoomIn | ZoomingOut

definition cameraStateOf :: "frames \<Rightarrow> cameraState" where
  "cameraStateOf st =
     (if isAnimatingOut st then ZoomingOut
      else if truthy (selectedFrameId st) \<and> clicked st \<noteq> None then ZoomIn
      else Idle)"

text \<open>One render frame: the subscriber of \<open>MouseCameraController\<close>, mounted first in
  \<open>App\<close>, then the subscriber of \<open>Frames\<close>.\<close>

definition renderFrame ::
    "library \<Rightarrow> vec3 option \<Rightarrow> real \<Rightarrow> mouseController \<times> frames \<times> camera \<Rightarrow> mouseController \<times> frames \<times> camera" where
  "renderFrame lib lookAtRef dt w =
     (case w of (m, st, cam) \<Rightarrow>
        let (m, cam) = mouseUseFrame lib lookAtRef m (cam\<lparr>orientationWriters := []\<rparr>)
        in (m, st, framesUseFrame lib dt st cam))"

text \<open>Concrete inputs: a scene with one frame \<open>f1\<close>, the machine at mount (idle) and
  zoomed in on \<open>f1\<close>, and a camera.\<close>

definition exampleFrame :: sceneObject where
  "exampleFrame = \<lparr>objectId = 1, name = ''f1'', parentLocalToWorld = (\<lambda>v. v)\<rparr>"

definition exampleProps :: props where
  "exampleProps =
     \<lparr>initialFov = 60, section2Position = (0, 4/5, 15/2), section2LookAtTarget = (0, 0, 0),
      objects = [exampleFrame]\<rparr>"

definition idleFrames :: frames where
  "idleFrames =
     \<lparr>selectedFrameId = None, isAnimatingOut = False, isZoomed = False, targetFovRef = 60,
      clicked = None, finalZoomInPosition = (0, 0, 0), frameCenterWorld = (0, 0, 0),
      zoomInTargetQ = (0, 0, 0, 1), zoomOutTargetQ = (0, 0, 0, 1),
      clearActiveClassesCalls = 0, timeline = []\<rparr>"

definition zoomedFrames :: frames where
  "zoomedFrames = select snapLibrary exampleProps ''f1'' idleFrames"

definition exampleCamera :: camera where
  "exampleCamera = \<lparr>position = (0, 8, 5), quaternion = (0, 0, 0, 1), fov = 60, orientationWriters = []\<rparr>"

text \<open>A controller attached to a camera at the origin, and that camera after something
  else has moved it to height \<open>1\<close>.\<close>

definition movedController :: mouseController where
  "movedController = \<lparr>mouseX = 0, basePositionRef = (0, 0, 0), targetPositionRef = (0, 0, 0)\<rparr>"

definition movedCamera :: camera where
  "movedCamera = \<lparr>position = (0, 1, 0), quaternion = (0, 0, 0, 1), fov = 60, orientationWriters = []\<rparr>"

section \<open>Properties of the scheduler\<close>

lemma runTicks_append:
  "runTicks fps en r (xs @ ys) =
     (let (r', l1) = runTicks fps en r xs; (r'', l2) = runTicks fps en r' ys in (r'', l1 @ l2))"
  by (induction xs arbitrary: r) (simp_all add: split_def Let_def)

lemma runTicks_refs:
  "runTicks fps True initialRefs tks = (r, tr) \<Longrightarrow>
     frameRef r = accumulatedSince tr \<and> lastTimeRef r = previousInvocationTime tr"
proof (induction tks arbitrary: r tr rule: rev_induct)
  case Nil
  then show ?case
    by (auto simp: initialRefs_def accumulatedSince_def previousInvocationTime_def)
next
  case (snoc tk tks)
  obtain r0 l0 where run0: "runTicks fps True initialRefs tks = (r0, l0)"
    by (cases "runTicks fps True initialRefs tks")
  obtain r1 out where step: "useFrameRate fps True r0 tk = (r1, out)"
    by (cases "useFrameRate fps True r0 tk")
  from snoc.prems run0 step have r: "r = r1" and tr: "tr = l0 @ [(tk, out)]"
    by (simp_all add: runTicks_append)
  from snoc.IH [OF run0] have ih: "frameRef r0 = accumulatedSince l0"
    "lastTimeRef r0 = previousInvocationTime l0" by simp_all
  show ?case
  proof (cases out)
    case None
    with step have "r1 = r0\<lparr>frameRef := frameRef r0 + delta tk\<rparr>"
      by (auto simp: useFrameRate_def Let_def split: if_splits)
    with None ih r tr show ?thesis
      by (simp add: accumulatedSince_def previousInvocationTime_def fired_def)
  next
    case (Some call)
    with step have "r1 = \<lparr>frameRef = 0, lastTimeRef = elapsedTime tk\<rparr>"
      by (auto simp: useFrameRate_def Let_def split: if_splits)
    with Some r tr show ?thesis
      by (simp add: accumulatedSince_def previousInvocationTime_def fired_def)
  qed
qed


lemma runTicks_Cons:
  "snd (runTicks fps en r (tk # tks)) =
     (tk, snd (useFrameRate fps en r tk)) # snd (runTicks fps en (fst (useFrameRate fps en r tk)) tks)"
  "fst (runTicks fps en r (tk # tks)) = fst (runTicks fps en (fst (useFrameRate fps en r tk)) tks)"
  by (simp_all add: split_def Let_def)

lemma useFrameRate_fires_iff:
  "0 < fps \<Longrightarrow> (snd (useFrameRate fps True r tk) \<noteq> None) = (1 / fps \<le> frameRef r + delta tk)"
  by (simp add: useFrameRate_def Let_def reached_def targetInterval_def)

lemma useFrameRate_zero_rate: "snd (useFrameRate 0 en r tk) = None"
  by (simp add: useFrameRate_def Let_def reached_def targetInterval_def)

lemma useFrameRate_negative_rate:
  "fps < 0 \<Longrightarrow> 0 \<le> frameRef r \<Longrightarrow> 0 \<le> delta tk \<Longrightarrow>
     useFrameRate fps True r tk =
       (\<lparr>frameRef = 0, lastTimeRef = elapsedTime tk\<rparr>,
        Some \<lparr>currentTime = elapsedTime tk, actualDelta = elapsedTime tk - lastTimeRef r\<rparr>)"
proof -
  assume a: "fps < 0" "0 \<le> frameRef r" "0 \<le> delta tk"
  then have "1 / fps < 0" by simp
  with a have "1 / fps \<le> frameRef r + delta tk" by linarith
  with a show ?thesis
    by (simp add: useFrameRate_def Let_def reached_def targetInterval_def)
qed

lemma runTicks_negative_rate:
  "fps < 0 \<Longrightarrow> 0 \<le> frameRef r \<Longrightarrow> \<forall>tk \<in> set tks. 0 \<le> delta tk \<Longrightarrow>
     \<forall>e \<in> set (snd (runTicks fps True r tks)). fired e"
proof (induction tks arbitrary: r)
  case Nil
  then show ?case by simp
next
  case (Cons tk tks)
  let ?r' = "\<lparr>frameRef = 0, lastTimeRef = elapsedTime tk\<rparr>"
  from Cons.prems have step: "useFrameRate fps True r tk =
      (?r', Some \<lparr>currentTime = elapsedTime tk, actualDelta = elapsedTime tk - lastTimeRef r\<rparr>)"
    by (simp add: useFrameRate_negative_rate)
  have "\<forall>e \<in> set (snd (runTicks fps True ?r' tks)). fired e"
    using Cons.prems by (intro Cons.IH) simp_all
  with step show ?case
    by (simp add: runTicks_Cons fired_def del: runTicks.simps(2))
qed

lemma runTicks_zero_rate:
  "\<forall>e \<in> set (snd (runTicks 0 en r tks)). \<not> fired e"
proof (induction tks arbitrary: r)
  case Nil
  then show ?case by simp
next
  case (Cons tk tks)
  have "snd (useFrameRate 0 en r tk) = None" by (rule useFrameRate_zero_rate)
  with Cons.IH show ?case
    by (simp add: runTicks_Cons fired_def del: runTicks.simps(2))
qed

lemma invocations_le_ticks: "invocations (snd (runTicks fps en r tks)) \<le> length tks"
proof -
  have "length (snd (runTicks fps en r tks)) = length tks"
    by (induction tks arbitrary: r) (simp_all add: runTicks_Cons del: runTicks.simps(2))
  then show ?thesis
    unfolding invocations_def by (metis length_filter_le)
qed

lemma map_eq_replicate: "\<forall>e \<in> set xs. f e = v \<Longrightarrow> map f xs = replicate (length xs) v"
  by (induction xs) simp_all

text \<open>
  C2.  For a rate \<open>fps > 0\<close>, after any sequence of render ticks, the callback is called on
  the next tick exactly when the delta time accumulated since the previous invocation,
  this tick's included, has reached \<open>1 / fps\<close>; it is then handed this tick's elapsed time
  minus the elapsed time of the previous invocation, the accumulator becomes \<open>0\<close> and the
  last fire time becomes this tick's elapsed time.
\<close>

theorem useFrameRate_invokes_at_interval:
  assumes "0 < fps"
    and "runTicks fps True initialRefs tks = (r, tr)"
    and "useFrameRate fps True r tk = (r', out)"
  shows "(out \<noteq> None) = (1 / fps \<le> accumulatedSince tr + delta tk) \<and>
         (out \<noteq> None \<longrightarrow>
            out = Some \<lparr>currentTime = elapsedTime tk,
                        actualDelta = elapsedTime tk - previousInvocationTime tr\<rparr> \<and>
            frameRef r' = 0 \<and> lastTimeRef r' = elapsedTime tk)"
proof -
  from runTicks_refs [OF assms(2)]
  have refs: "frameRef r = accumulatedSince tr" "lastTimeRef r = previousInvocationTime tr"
    by simp_all
  from useFrameRate_fires_iff [OF assms(1), of r tk] assms(3) refs
  have iff: "(out \<noteq> None) = (1 / fps \<le> accumulatedSince tr + delta tk)" by simp
  from assms(3) refs
  have "out \<noteq> None \<longrightarrow>
      out = Some \<lparr>currentTime = elapsedTime tk,
                  actualDelta = elapsedTime tk - previousInvocationTime tr\<rparr> \<and>
      frameRef r' = 0 \<and> lastTimeRef r' = elapsedTime tk"
    by (auto simp: useFrameRate_def Let_def split: if_splits)
  with iff show ?thesis by simp
qed

theorem useFrameRate_invokes_at_interval_witness:
  "(0::real) < 30 \<and>
   runTicks 30 True initialRefs exampleTicks =
     (\<lparr>frameRef = 1/50, lastTimeRef = 2/50\<rparr>,
      [(\<lparr>elapsedTime = 1/50, delta = 1/50\<rparr>, None),
       (\<lparr>elapsedTime = 2/50, delta = 1/50\<rparr>, Some \<lparr>currentTime = 2/50, actualDelta = 2/50\<rparr>),
       (\<lparr>elapsedTime = 3/50, delta = 1/50\<rparr>, None)]) \<and>
   useFrameRate 30 True \<lparr>frameRef = 1/50, lastTimeRef = 2/50\<rparr> \<lparr>elapsedTime = 4/50, delta = 1/50\<rparr> =
     (\<lparr>frameRef = 0, lastTimeRef = 4/50\<rparr>, Some \<lparr>currentTime = 4/50, actualDelta = 2/50\<rparr>) \<and>
   previousInvocationTime (snd (runTicks 30 True initialRefs exampleTicks)) = 2/50"
proof -
  have h1: "(0::real) < 30" by simp
  have h2: "runTicks 30 True initialRefs exampleTicks =
     (\<lparr>frameRef = 1/50, lastTimeRef = 2/50\<rparr>,
      [(\<lparr>elapsedTime = 1/50, delta = 1/50\<rparr>, None),
       (\<lparr>elapsedTime = 2/50, delta = 1/50\<rparr>, Some \<lparr>currentTime = 2/50, actualDelta = 2/50\<rparr>),
       (\<lparr>elapsedTime = 3/50, delta = 1/50\<rparr>, None)])"
    by (simp add: exampleTicks_def initialRefs_def useFrameRate_def reached_def targetInterval_def)
  have h3: "useFrameRate 30 True \<lparr>frameRef = 1/50, lastTimeRef = 2/50\<rparr> \<lparr>elapsedTime = 4/50, delta = 1/50\<rparr> =
     (\<lparr>frameRef = 0, lastTimeRef = 4/50\<rparr>, Some \<lparr>currentTime = 4/50, actualDelta = 2/50\<rparr>)"
    by (simp add: useFrameRate_def reached_def targetInterval_def)
  from useFrameRate_invokes_at_interval [OF h1 h2 h3]
  have "previousInvocationTime
          [(\<lparr>elapsedTime = 1/50, delta = 1/50\<rparr>, None),
           (\<lparr>elapsedTime = 2/50, delta = 1/50\<rparr>, Some \<lparr>currentTime = 2/50, actualDelta = 2/50\<rparr>),
           (\<lparr>elapsedTime = 3/50, delta = 1/50\<rparr>, None)] = 2/50"
    by simp
  with h1 h2 h3 show ?thesis by simp
qed

text \<open>
  C10.  For a rate \<open>fps > 0\<close> the callback is called at most once per render tick, and a
  tick that calls it leaves the accumulator at exactly \<open>0\<close>, whatever had been accumulated
  beyond \<open>1 / fps\<close>: the refs after the call do not depend on the surplus, and the next
  tick calls the callback exactly when its own delta reaches \<open>1 / fps\<close>.
\<close>

theorem useFrameRate_discards_surplus:
  assumes "0 < fps"
    and "useFrameRate fps True r tk = (r', Some call)"
  shows "r' = \<lparr>frameRef = 0, lastTimeRef = elapsedTime tk\<rparr> \<and>
         (\<forall>tk2. (snd (useFrameRate fps True r' tk2) \<noteq> None) = (1 / fps \<le> delta tk2)) \<and>
         invocations (snd (runTicks fps True r0 tks)) \<le> length tks"
proof -
  from assms(2) have r': "r' = \<lparr>frameRef = 0, lastTimeRef = elapsedTime tk\<rparr>"
    by (auto simp: useFrameRate_def Let_def split: if_splits)
  have "(snd (useFrameRate fps True r' tk2) \<noteq> None) = (1 / fps \<le> delta tk2)" for tk2
    using useFrameRate_fires_iff [OF assms(1), of r' tk2] r' by simp
  with r' invocations_le_ticks [of fps True r0 tks] show ?thesis by simp
qed

theorem useFrameRate_discards_surplus_witness:
  "useFrameRate 30 True initialRefs \<lparr>elapsedTime = 1, delta = 1\<rparr> =
     (\<lparr>frameRef = 0, lastTimeRef = 1\<rparr>, Some \<lparr>currentTime = 1, actualDelta = 1\<rparr>) \<and>
   snd (useFrameRate 30 True \<lparr>frameRef = 0, lastTimeRef = 1\<rparr> \<lparr>elapsedTime = 51/50, delta = 1/50\<rparr>) = None \<and>
   invocations (snd (runTicks 30 True initialRefs
      [\<lparr>elapsedTime = 1, delta = 1\<rparr>, \<lparr>elapsedTime = 51/50, delta = 1/50\<rparr>])) \<le> 2"
proof -
  have h1: "(0::real) < 30" by simp
  have h2: "useFrameRate 30 True initialRefs \<lparr>elapsedTime = 1, delta = 1\<rparr> =
     (\<lparr>frameRef = 0, lastTimeRef = 1\<rparr>, Some \<lparr>currentTime = 1, actualDelta = 1\<rparr>)"
    by (simp add: useFrameRate_def initialRefs_def reached_def targetInterval_def)
  from useFrameRate_discards_surplus [OF h1 h2, of initialRefs
      "[\<lparr>elapsedTime = 1, delta = 1\<rparr>, \<lparr>elapsedTime = 51/50, delta = 1/50\<rparr>]"]
  have "(snd (useFrameRate 30 True \<lparr>frameRef = 0, lastTimeRef = 1\<rparr> \<lparr>elapsedTime = 51/50, delta = 1/50\<rparr>) \<noteq> None)
          = ((1::real) / 30 \<le> 1/50)"
    and "invocations (snd (runTicks 30 True initialRefs
      [\<lparr>elapsedTime = 1, delta = 1\<rparr>, \<lparr>elapsedTime = 51/50, delta = 1/50\<rparr>])) \<le> 2"
    by simp_all
  with h2 show ?thesis by simp
qed

text \<open>
  C5, as the claim states it, fails at the rate \<open>0\<close>: the target interval is infinite and
  the callback is not called on a render tick.
\<close>

theorem useFrameRate_rate_zero_counterexample:
  "snd (useFrameRate 0 True initialRefs \<lparr>elapsedTime = 1, delta = 1\<rparr>) = None"
  by (simp add: useFrameRate_def initialRefs_def reached_def targetInterval_def)

text \<open>
  C5, amended.  The rate is not normalized.  With a rate \<open>fps < 0\<close> and render deltas that
  are not negative, the callback is called on every render tick; with the rate \<open>0\<close> it is
  called on none.  Either way every tick yields new refs and no failure.
\<close>

theorem useFrameRate_nonpositive_rate:
  assumes "fps \<le> 0"
    and "\<forall>tk \<in> set tks. 0 \<le> delta tk"
  shows "\<forall>e \<in> set (snd (runTicks fps True initialRefs tks)). fired e = (fps < 0)"
proof (cases "fps = 0")
  case True
  with runTicks_zero_rate [of True initialRefs tks] show ?thesis by simp
next
  case False
  with assms(1) have neg: "fps < 0" by simp
  have "0 \<le> frameRef initialRefs" by (simp add: initialRefs_def)
  from runTicks_negative_rate [OF neg this assms(2)] neg show ?thesis by simp
qed

theorem useFrameRate_nonpositive_rate_witness:
  "map delta exampleTicks = [1/50, 1/50, 1/50] \<and>
   map fired (snd (runTicks (-30) True initialRefs exampleTicks)) = [True, True, True] \<and>
   map fired (snd (runTicks 0 True initialRefs exampleTicks)) = [False, False, False]"
proof -
  have h: "\<forall>tk \<in> set exampleTicks. 0 \<le> delta tk" by (simp add: exampleTicks_def)
  have a: "(-30::real) \<le> 0" and b: "(0::real) \<le> 0" by simp_all
  have len: "length (snd (runTicks fps True initialRefs exampleTicks)) = 3" for fps
    by (simp add: exampleTicks_def split_def Let_def)
  have all: "length xs = 3 \<Longrightarrow> \<forall>e \<in> set xs. fired e = v \<Longrightarrow> map fired xs = [v, v, v]"
    for xs :: "(tick \<times> invocation option) list" and v
    using map_eq_replicate [of xs fired v] by (simp add: numeral_3_eq_3)
  from all [OF len useFrameRate_nonpositive_rate [OF a h]]
    all [OF len useFrameRate_nonpositive_rate [OF b h]]
  show ?thesis by (simp add: exampleTicks_def)
qed

section \<open>Properties of the particle simulator\<close>

lemma writeParticle_length:
  "length (positions (writeParticle st p q)) = length (positions st)"
  "length (velocities (writeParticle st p q)) = length (velocities st)"
  by (simp_all add: writeParticle_def Let_def split: prod.splits)

lemma readParticle_writeParticle_same:
  "3 * p + 2 < length (positions st) \<Longrightarrow> 3 * p + 2 < length (velocities st) \<Longrightarrow>
     readParticle (writeParticle st p q) p = q"
  by (auto simp: readParticle_def writeParticle_def Let_def split: prod.splits)

lemma readParticle_writeParticle_other:
  "p \<noteq> p' \<Longrightarrow> readParticle (writeParticle st p' q) p = readParticle st p"
  by (auto simp: readParticle_def writeParticle_def Let_def split: prod.splits)

lemma writeLoop_length:
  assumes "\<And>st p. f st p = writeParticle st p (g p (readParticle st p))"
  shows "length (positions (foldl f st ps)) = length (positions st)"
    and "length (velocities (foldl f st ps)) = length (velocities st)"
  by (induction ps arbitrary: st) (simp_all add: assms writeParticle_length)

lemma writeLoop_read:
  assumes f: "\<And>st p. f st p = writeParticle st p (g p (readParticle st p))"
    and "length (positions st) = 3 * count" "length (velocities st) = 3 * count" "n \<le> count"
  shows "readParticle (foldl f st [0..<n]) p =
           (if p < n then g p (readParticle st p) else readParticle st p)"
  using assms(4)
proof (induction n arbitrary: p)
  case 0
  then show ?case by simp
next
  case (Suc n)
  let ?s = "foldl f st [0..<n]"
  from Suc.prems have n: "n < count" by simp
  have len: "3 * n + 2 < length (positions ?s)" "3 * n + 2 < length (velocities ?s)"
    using n assms(2,3) by (simp_all add: writeLoop_length [of f g, OF f])
  have ih: "readParticle ?s p =
      (if p < n then g p (readParticle st p) else readParticle st p)" for p
    using Suc.IH [of p] n by simp
  have unf: "foldl f st [0..<Suc n] = writeParticle ?s n (g n (readParticle ?s n))"
    by (simp add: f)
  show ?case
  proof (cases "p = n")
    case True
    have "readParticle (foldl f st [0..<Suc n]) n = g n (readParticle ?s n)"
      unfolding unf by (rule readParticle_writeParticle_same [OF len])
    with True ih [of n] show ?thesis by simp
  next
    case False
    have "readParticle (foldl f st [0..<Suc n]) p = readParticle ?s p"
      unfolding unf by (rule readParticle_writeParticle_other [OF False])
    with False ih [of p] show ?thesis by auto
  qed
qed

lemma updateParticle_writes:
  "updateParticle opts count time st p =
     writeParticle st p (stepParticle opts (preCalculatedValues opts count ! p) time (readParticle st p))"
  by (simp add: updateParticle_def)

lemma initParticle_writes:
  "initParticle rnd st p =
     writeParticle st p
       ((rnd (6 * p) - 0.5) * 2, (rnd (6 * p + 1) - 0.5) * 2, (rnd (6 * p + 2) - 0.5) * 0.3,
        (rnd (6 * p + 3) - 0.5) * 0.001, (rnd (6 * p + 4) - 0.5) * 0.001,
        (rnd (6 * p + 5) - 0.5) * 0.0002)"
  by (simp add: initParticle_def writeParticle_def Let_def)

lemma initParticles_length:
  "length (positions (initParticles count rnd)) = 3 * count"
  "length (velocities (initParticles count rnd)) = 3 * count"
  unfolding initParticles_def
  by (simp_all add: writeLoop_length [of "initParticle rnd", OF initParticle_writes] emptyParticles_def)

lemma initParticles_read:
  assumes "p < count"
  shows "readParticle (initParticles count rnd) p =
       ((rnd (6 * p) - 0.5) * 2, (rnd (6 * p + 1) - 0.5) * 2, (rnd (6 * p + 2) - 0.5) * 0.3,
        (rnd (6 * p + 3) - 0.5) * 0.001, (rnd (6 * p + 4) - 0.5) * 0.001,
        (rnd (6 * p + 5) - 0.5) * 0.0002)"
proof -
  have "length (positions (emptyParticles count)) = 3 * count"
    "length (velocities (emptyParticles count)) = 3 * count"
    by (simp_all add: emptyParticles_def)
  from writeLoop_read [of "initParticle rnd", OF initParticle_writes this order_refl, of p] assms
  show ?thesis by (simp add: initParticles_def)
qed

lemma updateParticles_length:
  "length (positions (updateParticles opts count time st)) = length (positions st)"
  "length (velocities (updateParticles opts count time st)) = length (velocities st)"
  unfolding updateParticles_def
  by (simp_all add: writeLoop_length [of "updateParticle opts count time", OF updateParticle_writes])


lemma clamped_radius:
  assumes "0 \<le> r"
  shows "sqrt ((cos a * r * 0.9)\<^sup>2 + (sin a * r * 0.9)\<^sup>2) = 0.9 * r"
proof -
  have c: "(cos a * r * 0.9)\<^sup>2 = (0.9 * r)\<^sup>2 * (cos a)\<^sup>2"
    and s: "(sin a * r * 0.9)\<^sup>2 = (0.9 * r)\<^sup>2 * (sin a)\<^sup>2"
    by (simp_all add: power2_eq_square)
  have "(cos a * r * 0.9)\<^sup>2 + (sin a * r * 0.9)\<^sup>2 = (0.9 * r)\<^sup>2 * ((cos a)\<^sup>2 + (sin a)\<^sup>2)"
    unfolding c s by (rule distrib_left [symmetric])
  then have "(cos a * r * 0.9)\<^sup>2 + (sin a * r * 0.9)\<^sup>2 = (0.9 * r)\<^sup>2"
    by simp
  with assms show ?thesis by simp
qed

text \<open>
  C1, as the claim states it, fails before the first advance: with the draws \<open>0.95\<close> the
  one particle starts at \<open>(0.9, 0.9, 0.135)\<close>, whose planar distance from the origin is
  more than \<open>0.4\<close> beyond the default \<open>maxRadius = 0.8\<close>.
\<close>

theorem initial_particle_outside_counterexample:
  "maxRadius defaultOptions + 2/5 <
     planarDistance (advance defaultOptions 1 [] (initParticles 1 (\<lambda>k. 19/20))) 0"
proof -
  have "planarDistance (initParticles 1 (\<lambda>k. 19/20)) 0 =
      sqrt ((fst (readParticle (initParticles 1 (\<lambda>k. 19/20)) 0))\<^sup>2 +
            (fst (snd (readParticle (initParticles 1 (\<lambda>k. 19/20)) 0)))\<^sup>2)"
    by (simp add: readParticle_def planarDistance_def Let_def)
  also have "\<dots> = sqrt ((9/10)\<^sup>2 + (9/10)\<^sup>2)"
    by (simp add: initParticles_read)
  finally have "planarDistance (initParticles 1 (\<lambda>k. 19/20)) 0 = sqrt ((9/10)\<^sup>2 + (9/10)\<^sup>2)" .
  moreover have "(6/5 :: real) < sqrt ((9/10)\<^sup>2 + (9/10)\<^sup>2)"
    by (rule real_less_rsqrt) (simp add: power2_eq_square)
  ultimately show ?thesis
    by (simp add: advance_def defaultOptions_def)
qed

lemma stepParticleF_exact:
  "stepParticleF (\<lambda>x. x) opts pc time q = stepParticle opts pc time q"
  by (simp add: stepParticleF_def stepParticle_def)

lemma updateParticlesF_exact:
  "updateParticlesF (\<lambda>x. x) opts count time st = updateParticles opts count time st"
proof -
  have "updateParticleF (\<lambda>x. x) opts count time = updateParticle opts count time"
    by (intro ext) (simp add: updateParticleF_def updateParticle_def stepParticleF_exact)
  then show ?thesis by (simp add: updateParticlesF_def updateParticles_def)
qed

lemma updateParticleF_writes:
  "updateParticleF fround opts count time st p =
     writeParticle st p
       (stepParticleF fround opts (preCalculatedValues opts count ! p) time (readParticle st p))"
  by (simp add: updateParticleF_def)

lemma initParticleF_writes:
  "initParticleF fround rnd st p =
     writeParticle st p
       (fround ((rnd (6 * p) - 0.5) * 2), fround ((rnd (6 * p + 1) - 0.5) * 2),
        fround ((rnd (6 * p + 2) - 0.5) * 0.3), fround ((rnd (6 * p + 3) - 0.5) * 0.001),
        fround ((rnd (6 * p + 4) - 0.5) * 0.001), fround ((rnd (6 * p + 5) - 0.5) * 0.0002))"
  by (simp add: initParticleF_def writeParticle_def Let_def)

lemma initParticlesF_length:
  "length (positions (initParticlesF fround count rnd)) = 3 * count"
  "length (velocities (initParticlesF fround count rnd)) = 3 * count"
  unfolding initParticlesF_def
  by (simp_all add: writeLoop_length [of "initParticleF fround rnd", OF initParticleF_writes]
      emptyParticles_def)

lemma initParticlesF_read:
  assumes "p < count"
  shows "readParticle (initParticlesF fround count rnd) p =
       (fround ((rnd (6 * p) - 0.5) * 2), fround ((rnd (6 * p + 1) - 0.5) * 2),
        fround ((rnd (6 * p + 2) - 0.5) * 0.3), fround ((rnd (6 * p + 3) - 0.5) * 0.001),
        fround ((rnd (6 * p + 4) - 0.5) * 0.001), fround ((rnd (6 * p + 5) - 0.5) * 0.0002))"
proof -
  have "length (positions (emptyParticles count)) = 3 * count"
    "length (velocities (emptyParticles count)) = 3 * count"
    by (simp_all add: emptyParticles_def)
  from writeLoop_read [of "initParticleF fround rnd", OF initParticleF_writes this order_refl, of p] assms
  show ?thesis by (simp add: initParticlesF_def)
qed

lemma updateParticlesF_length:
  "length (positions (updateParticlesF fround opts count time st)) = length (positions st)"
  "length (velocities (updateParticlesF fround opts count time st)) = length (velocities st)"
  unfolding updateParticlesF_def
  by (simp_all add: writeLoop_length [of "updateParticleF fround opts count time", OF updateParticleF_writes])

lemma updateParticlesF_read:
  assumes "length (positions st) = 3 * count" "length (velocities st) = 3 * count" "p < count"
  shows "readParticle (updateParticlesF fround opts count time st) p =
           stepParticleF fround opts (preCalcEntry opts p) time (readParticle st p)"
  using writeLoop_read [of "updateParticleF fround opts count time", OF updateParticleF_writes assms(1,2) order_refl, of p]
    assms(3)
  by (simp add: updateParticlesF_def preCalculatedValues_def)

lemma advanceF_length:
  "length (positions (advanceF fround opts count ts st)) = length (positions st)"
  "length (velocities (advanceF fround opts count ts st)) = length (velocities st)"
  by (induction ts arbitrary: st) (simp_all add: advanceF_def updateParticlesF_length)

lemma advanceF_snoc:
  "advanceF fround opts count (ts @ [t]) st =
     updateParticlesF fround opts count t (advanceF fround opts count ts st)"
  by (simp add: advanceF_def)

lemma stored_radius:
  fixes r u e :: real
  assumes "0 \<le> r" "0 \<le> u" "0 \<le> e"
    and err: "\<forall>x. \<bar>fround x - x\<bar> \<le> u * \<bar>x\<bar> + e"
  shows "sqrt ((fround (cos a * r * 0.9))\<^sup>2 + (fround (sin a * r * 0.9))\<^sup>2) \<le> r + 2 * (u * r + e)"
proof -
  define X where "X = cos a * r * 0.9"
  define Y where "Y = sin a * r * 0.9"
  have XY: "sqrt (X\<^sup>2 + Y\<^sup>2) = 0.9 * r"
    unfolding X_def Y_def by (rule clamped_radius [OF assms(1)])
  have scale: "0 \<le> r * 0.9" "r * 0.9 \<le> r" using assms(1) by simp_all
  have "\<bar>X\<bar> = \<bar>cos a\<bar> * (r * 0.9)"
    unfolding X_def using scale(1) by (simp only: abs_mult mult.assoc abs_of_nonneg)
  also have "\<dots> \<le> 1 * (r * 0.9)"
    by (rule mult_right_mono [OF abs_cos_le_one scale(1)])
  finally have absX: "\<bar>X\<bar> \<le> r" using scale(2) by linarith
  have "\<bar>Y\<bar> = \<bar>sin a\<bar> * (r * 0.9)"
    unfolding Y_def using scale(1) by (simp only: abs_mult mult.assoc abs_of_nonneg)
  also have "\<dots> \<le> 1 * (r * 0.9)"
    by (rule mult_right_mono [OF abs_sin_le_one scale(1)])
  finally have absY: "\<bar>Y\<bar> \<le> r" using scale(2) by linarith
  note absXY = absX absY
  have "u * \<bar>X\<bar> + e \<le> u * r + e" "u * \<bar>Y\<bar> + e \<le> u * r + e"
    using absXY assms(2) by (simp_all add: mult_left_mono)
  moreover from err have "\<bar>fround X - X\<bar> \<le> u * \<bar>X\<bar> + e" "\<bar>fround Y - Y\<bar> \<le> u * \<bar>Y\<bar> + e"
    by blast+
  ultimately have "\<bar>fround X - X\<bar> \<le> u * r + e" "\<bar>fround Y - Y\<bar> \<le> u * r + e"
    by (meson order_trans)+
  then have "\<bar>fround X - X\<bar> + \<bar>fround Y - Y\<bar> \<le> (u * r + e) + (u * r + e)"
    by (rule add_mono)
  then have d: "\<bar>fround X - X\<bar> + \<bar>fround Y - Y\<bar> \<le> 2 * (u * r + e)"
    by (simp add: mult.commute)
  have "sqrt ((fround X)\<^sup>2 + (fround Y)\<^sup>2) = sqrt ((X + (fround X - X))\<^sup>2 + (Y + (fround Y - Y))\<^sup>2)"
    by simp
  also have "\<dots> \<le> sqrt (X\<^sup>2 + Y\<^sup>2) + sqrt ((fround X - X)\<^sup>2 + (fround Y - Y)\<^sup>2)"
    by (rule real_sqrt_sum_squares_triangle_ineq)
  also have "\<dots> \<le> 0.9 * r + (\<bar>fround X - X\<bar> + \<bar>fround Y - Y\<bar>)"
    unfolding XY using sqrt_sum_squares_le_sum_abs [of "fround X - X" "fround Y - Y"] by simp
  also have "\<dots> \<le> r + 2 * (u * r + e)"
    using d assms(1) by simp
  finally show ?thesis unfolding X_def Y_def .
qed

lemma stored_height:
  fixes b u e z :: real
  assumes "0 \<le> b" "0 \<le> u"
    and err: "\<forall>x. \<bar>fround x - x\<bar> \<le> u * \<bar>x\<bar> + e"
  shows "\<bar>fround (sgn z * b)\<bar> \<le> b + (u * b + e)"
proof -
  define w where "w = sgn z * b"
  have w: "\<bar>w\<bar> \<le> b" using assms(1) by (simp add: w_def sgn_real_def)
  then have "u * \<bar>w\<bar> \<le> u * b" using assms(2) by (rule mult_left_mono)
  moreover from err have "\<bar>fround w - w\<bar> \<le> u * \<bar>w\<bar> + e" by blast
  ultimately have "\<bar>fround w - w\<bar> \<le> u * b + e" by simp
  moreover have "\<bar>fround w\<bar> \<le> \<bar>w\<bar> + \<bar>fround w - w\<bar>" by simp
  ultimately show ?thesis using w unfolding w_def by linarith
qed

lemma stepParticleF_bounded:
  assumes "0 \<le> maxRadius opts" "0 \<le> boundsZ opts" "0 \<le> u" "0 \<le> e"
    and err: "\<forall>x. \<bar>fround x - x\<bar> \<le> u * \<bar>x\<bar> + e"
    and "stepParticleF fround opts pc time q = (x, y, z, vx, vy, vz)"
  shows "sqrt (x\<^sup>2 + y\<^sup>2) \<le> maxRadius opts + 2 * (u * maxRadius opts + e) \<and>
         \<bar>z\<bar> \<le> boundsZ opts + (u * boundsZ opts + e)"
proof -
  obtain x0 y0 z0 vx0 vy0 vz0 where q: "q = (x0, y0, z0, vx0, vy0, vz0)"
    by (cases q) auto
  define t where "t = time * speed pc + phase pc"
  define x1 where "x1 = fround (fround (x0 + vx0) + sin t * amplitude pc)"
  define y1 where "y1 = fround (fround (y0 + vy0) + cos (t * 0.7) * amplitude pc)"
  define z1 where "z1 = fround (fround (z0 + vz0) + sin (t * 0.5) * amplitude pc * 0.5)"
  have xy: "(x, y) = (if sqrt (x1 * x1 + y1 * y1) > maxRadius opts
              then (fround (cos (atan2 y1 x1) * maxRadius opts * 0.9),
                    fround (sin (atan2 y1 x1) * maxRadius opts * 0.9))
              else (x1, y1))"
    and z: "z = (if \<bar>z1\<bar> > boundsZ opts then fround (sgn z1 * boundsZ opts) else z1)"
    using assms(6) unfolding q stepParticleF_def x1_def y1_def z1_def t_def
    by (auto simp: Let_def split: if_splits)
  have slack: "0 \<le> 2 * (u * maxRadius opts + e)" "0 \<le> u * boundsZ opts + e"
    using assms(1-4) by simp_all
  have "sqrt (x\<^sup>2 + y\<^sup>2) \<le> maxRadius opts + 2 * (u * maxRadius opts + e)"
  proof (cases "sqrt (x1 * x1 + y1 * y1) > maxRadius opts")
    case True
    with xy have x: "x = fround (cos (atan2 y1 x1) * maxRadius opts * 0.9)"
      and y: "y = fround (sin (atan2 y1 x1) * maxRadius opts * 0.9)"
      by simp_all
    show ?thesis
      unfolding x y by (rule stored_radius [OF assms(1,3,4) err])
  next
    case False
    with xy have "sqrt (x\<^sup>2 + y\<^sup>2) \<le> maxRadius opts" by (simp add: power2_eq_square)
    with slack(1) show ?thesis by linarith
  qed
  moreover have "\<bar>z\<bar> \<le> boundsZ opts + (u * boundsZ opts + e)"
  proof (cases "\<bar>z1\<bar> > boundsZ opts")
    case True
    with z have "z = fround (sgn z1 * boundsZ opts)" by simp
    then show ?thesis using stored_height [OF assms(2,3) err, of z1] by simp
  next
    case False
    with z slack(2) show ?thesis by simp
  qed
  ultimately show ?thesis by simp
qed

lemma round_scaled_error:
  assumes "0 < (g::real)"
  shows "\<bar>of_int (round (x * g)) / g - x\<bar> \<le> 1 / (2 * g)"
proof -
  have "of_int (round (x * g)) / g - x = (of_int (round (x * g)) - x * g) / g"
    using assms by (simp add: field_simps)
  then have "\<bar>of_int (round (x * g)) / g - x\<bar> = \<bar>of_int (round (x * g)) - x * g\<bar> / g"
    using assms by (simp only: abs_divide abs_of_pos)
  also have "\<dots> \<le> (1 / 2) / g"
    by (rule divide_right_mono [OF of_int_round_abs_le]) (use assms in simp)
  finally show ?thesis by simp
qed

lemma roundToGrid_error: "\<bar>roundToGrid x - x\<bar> \<le> 0 * \<bar>x\<bar> + 1 / 2 ^ 27"
  using round_scaled_error [of "2 ^ 26" x] by (simp add: roundToGrid_def)

lemma stepParticleF_height:
  "fst (snd (snd (stepParticleF fround opts pc time (x, y, z, vx, vy, vz)))) =
     (let z1 = fround (fround (z + vz) + sin ((time * speed pc + phase pc) * 0.5) * amplitude pc * 0.5)
      in if \<bar>z1\<bar> > boundsZ opts then fround (sgn z1 * boundsZ opts) else z1)"
  by (simp add: stepParticleF_def Let_def split: if_splits)

lemma initial_particle_outside_rounded:
  assumes "\<forall>x. \<bar>fround x - x\<bar> \<le> 1/100"
  shows "maxRadius defaultOptions + 2/5 <
           planarDistance (advanceF fround defaultOptions 1 [] (initParticlesF fround 1 (\<lambda>k. 19/20))) 0"
proof -
  let ?init = "initParticlesF fround 1 (\<lambda>k. 19/20)"
  define a where "a = fround (9/10)"
  from assms have "\<bar>fround (9/10) - 9/10\<bar> \<le> 1/100" by blast
  then have a: "89/100 \<le> a" unfolding a_def by linarith
  have "planarDistance ?init 0 =
      sqrt ((fst (readParticle ?init 0))\<^sup>2 + (fst (snd (readParticle ?init 0)))\<^sup>2)"
    by (simp add: readParticle_def planarDistance_def Let_def)
  also have "\<dots> = sqrt (a\<^sup>2 + a\<^sup>2)"
    by (simp add: initParticlesF_read a_def)
  finally have d: "planarDistance ?init 0 = sqrt (a\<^sup>2 + a\<^sup>2)" .
  have "(89/100)\<^sup>2 \<le> a\<^sup>2" using a by (intro power_mono) simp_all
  then have "(6/5)\<^sup>2 < a\<^sup>2 + a\<^sup>2" by (simp add: power2_eq_square)
  then have "6/5 < sqrt (a\<^sup>2 + a\<^sup>2)" by (rule real_less_rsqrt)
  with d show ?thesis by (simp add: advanceF_def defaultOptions_def)
qed

lemma updateParticlesF_bounded:
  assumes "0 \<le> maxRadius opts" "0 \<le> boundsZ opts" "0 \<le> u" "0 \<le> eta"
    and "\<forall>x. \<bar>fround x - x\<bar> \<le> u * \<bar>x\<bar> + eta"
    and "length (positions st) = 3 * count" "length (velocities st) = 3 * count" "p < count"
  shows "planarDistance (updateParticlesF fround opts count time st) p
           \<le> maxRadius opts + 2 * (u * maxRadius opts + eta) \<and>
         \<bar>height (updateParticlesF fround opts count time st) p\<bar>
           \<le> boundsZ opts + (u * boundsZ opts + eta)"
proof -
  let ?s = "updateParticlesF fround opts count time st"
  obtain x y z vx vy vz where q: "readParticle ?s p = (x, y, z, vx, vy, vz)"
    by (cases "readParticle ?s p") auto
  then have xyz: "positions ?s ! (3 * p) = x" "positions ?s ! (3 * p + 1) = y"
    "positions ?s ! (3 * p + 2) = z"
    by (simp_all add: readParticle_def Let_def)
  from q updateParticlesF_read [OF assms(6,7,8), of fround opts time]
  have "stepParticleF fround opts (preCalcEntry opts p) time (readParticle st p) = (x, y, z, vx, vy, vz)"
    by simp
  from stepParticleF_bounded [OF assms(1-5) this] xyz show ?thesis
    by (simp add: planarDistance_def height_def)
qed

text \<open>
  C1, amended.  With \<open>maxRadius \<ge> 0\<close> and \<open>boundsZ \<ge> 0\<close>, for every state reached by one
  or more advance ticks from an initial state of the initialization, and every particle
  index, the planar distance from the origin is at most \<open>maxRadius\<close> up to a small \<open>\<epsilon>\<close> and
  \<open>|z|\<close> is at most \<open>boundsZ\<close> up to a small \<open>\<epsilon>\<close>; the bound need not hold for the initial
  positions before the first advance.  Here the stores into the 32-bit arrays are rounded
  by \<open>fround\<close>, with relative error at most \<open>u\<close> and absolute error at most \<open>eta\<close>, and
  \<open>\<epsilon>\<close> is any number that covers this rounding of the two bounds.
\<close>

theorem particles_bounded_after_first_tick:
  assumes "0 \<le> maxRadius opts" "0 \<le> boundsZ opts"
    and "0 \<le> u" "0 \<le> eta" "\<forall>x. \<bar>fround x - x\<bar> \<le> u * \<bar>x\<bar> + eta"
    and "2 * (u * maxRadius opts + eta) \<le> eps" "u * boundsZ opts + eta \<le> eps"
    and "ts \<noteq> []" "p < count"
  shows "planarDistance (advanceF fround opts count ts (initParticlesF fround count rnd)) p
           \<le> maxRadius opts + eps \<and>
         \<bar>height (advanceF fround opts count ts (initParticlesF fround count rnd)) p\<bar>
           \<le> boundsZ opts + eps"
proof -
  let ?init = "initParticlesF fround count rnd"
  from assms(8) obtain ts' t where ts: "ts = ts' @ [t]"
    by (cases ts rule: rev_cases) auto
  let ?s = "advanceF fround opts count ts' ?init"
  have len: "length (positions ?s) = 3 * count" "length (velocities ?s) = 3 * count"
    by (simp_all add: advanceF_length initParticlesF_length)
  from updateParticlesF_bounded [OF assms(1-5) len assms(9), of t]
  have "planarDistance (advanceF fround opts count ts ?init) p
          \<le> maxRadius opts + 2 * (u * maxRadius opts + eta)"
    and "\<bar>height (advanceF fround opts count ts ?init) p\<bar>
          \<le> boundsZ opts + (u * boundsZ opts + eta)"
    by (simp_all add: ts advanceF_snoc)
  with assms(6,7) show ?thesis by linarith
qed

lemma clamped_run_height:
  "height (advanceF roundToGrid defaultOptions 1 [0] (initParticlesF roundToGrid 1 (\<lambda>k. 9999/10000))) 0
     = 10066330 / 2 ^ 26"
proof -
  let ?init = "initParticlesF roundToGrid 1 (\<lambda>k. 9999/10000)"
  let ?s = "updateParticlesF roundToGrid defaultOptions 1 0 ?init"
  obtain x y z vx vy vz where q: "readParticle ?init 0 = (x, y, z, vx, vy, vz)"
    by (cases "readParticle ?init 0") auto
  with initParticlesF_read [of 0 1 roundToGrid "\<lambda>k. 9999/10000"]
  have z: "z = roundToGrid ((9999/10000 - 0.5) * 0.3)" and vz: "vz = roundToGrid ((9999/10000 - 0.5) * 0.0002)"
    by simp_all
  have z': "z = 10064316 / 2 ^ 26" and vz': "vz = 6710 / 2 ^ 26"
    unfolding z vz by (simp_all add: roundToGrid_def round_def)
  have "height ?s 0 = fst (snd (snd (readParticle ?s 0)))"
    by (simp add: height_def readParticle_def Let_def)
  also have "readParticle ?s 0 =
      stepParticleF roundToGrid defaultOptions (preCalcEntry defaultOptions 0) 0 (x, y, z, vx, vy, vz)"
    using updateParticlesF_read [of ?init 1 0 roundToGrid defaultOptions 0] q
    by (simp add: initParticlesF_length)
  also have "fst (snd (snd \<dots>)) = 10066330 / 2 ^ 26"
    unfolding stepParticleF_height z' vz'
    by (simp add: preCalcEntry_def defaultOptions_def roundToGrid_def round_def Let_def)
  finally show ?thesis by (simp add: advanceF_def)
qed

theorem particles_bounded_after_first_tick_witness:
  "planarDistance (advanceF roundToGrid defaultOptions 1 [0]
      (initParticlesF roundToGrid 1 (\<lambda>k. 9999/10000))) 0 \<le> 4/5 + 1 / 2 ^ 26 \<and>
   \<bar>height (advanceF roundToGrid defaultOptions 1 [0]
      (initParticlesF roundToGrid 1 (\<lambda>k. 9999/10000))) 0\<bar> \<le> 3/20 + 1 / 2 ^ 26 \<and>
   3/20 < height (advanceF roundToGrid defaultOptions 1 [0]
      (initParticlesF roundToGrid 1 (\<lambda>k. 9999/10000))) 0"
proof -
  have h: "0 \<le> maxRadius defaultOptions" "0 \<le> boundsZ defaultOptions"
    by (simp_all add: defaultOptions_def)
  have r: "(0::real) \<le> 0" "(0::real) \<le> 1 / 2 ^ 27"
    "\<forall>x. \<bar>roundToGrid x - x\<bar> \<le> 0 * \<bar>x\<bar> + 1 / 2 ^ 27"
    using roundToGrid_error by simp_all
  have e: "2 * (0 * maxRadius defaultOptions + 1 / 2 ^ 27) \<le> (1 / 2 ^ 26 :: real)"
    "0 * boundsZ defaultOptions + 1 / 2 ^ 27 \<le> (1 / 2 ^ 26 :: real)"
    by simp_all
  have n: "[0::real] \<noteq> []" "(0::nat) < 1" by simp_all
  from particles_bounded_after_first_tick [OF h r e n, of "\<lambda>k. 9999/10000"] clamped_run_height
  show ?thesis by (simp add: defaultOptions_def)
qed







section \<open>Properties of the camera\<close>

text \<open>
  C7.  \<open>triggerZoomOut\<close> while no frame is selected (Idle), or while the zoom out is
  already running, changes nothing; and calling it twice gives the state of calling it
  once.
\<close>

theorem triggerZoomOut_idempotent:
  "(\<not> truthy (selectedFrameId st) \<longrightarrow> triggerZoomOut pr st = st) \<and>
   (isAnimatingOut st \<longrightarrow> triggerZoomOut pr st = st) \<and>
   triggerZoomOut pr (triggerZoomOut pr st) = triggerZoomOut pr st"
  by (simp add: triggerZoomOut_def)

theorem triggerZoomOut_idempotent_witness:
  "\<not> truthy (selectedFrameId idleFrames) \<and>
   triggerZoomOut exampleProps idleFrames = idleFrames \<and>
   isAnimatingOut (triggerZoomOut exampleProps zoomedFrames) \<and>
   triggerZoomOut exampleProps zoomedFrames \<noteq> zoomedFrames \<and>
   triggerZoomOut exampleProps (triggerZoomOut exampleProps zoomedFrames) =
     triggerZoomOut exampleProps zoomedFrames"
proof -
  have idle: "\<not> truthy (selectedFrameId idleFrames)"
    by (simp add: idleFrames_def truthy_def)
  have sel: "selectedFrameId zoomedFrames = Some ''f1''" "\<not> isAnimatingOut zoomedFrames"
    by (simp_all add: zoomedFrames_def select_def setSelectedFrameId_def zoomInEffect_def
        idleFrames_def Let_def split: option.splits)
  then have out: "isAnimatingOut (triggerZoomOut exampleProps zoomedFrames)"
    by (simp add: triggerZoomOut_def truthy_def)
  with sel(2) have ne: "triggerZoomOut exampleProps zoomedFrames \<noteq> zoomedFrames"
    by auto
  from triggerZoomOut_idempotent [of idleFrames exampleProps]
    triggerZoomOut_idempotent [of zoomedFrames exampleProps] idle out ne
  show ?thesis by simp
qed

text \<open>
  C9, as the claim states it, fails on y (and likewise on z): the whole position is
  interpolated toward \<open>(targetX, basePosition.y, basePosition.z)\<close>.  A camera that has
  been moved to height \<open>1\<close> above a base position at height \<open>0\<close> comes down to \<open>0.95\<close>
  on the next tick.
\<close>

theorem parallax_moves_y_counterexample:
  "position movedCamera = (0, 1, 0) \<and>
   position (snd (mouseUseFrame snapLibrary None movedController movedCamera)) = (0, 19/20, 0) \<and>
   fst (snd (position (snd (mouseUseFrame snapLibrary None movedController movedCamera)))) \<noteq>
     fst (snd (position movedCamera))"
  by (simp add: mouseUseFrame_def lerp_def LERP_SPEED_def MAX_HORIZONTAL_OFFSET_def Let_def
      movedController_def movedCamera_def)

text \<open>
  C9, amended.  A pointer sample inside a viewport of positive width sets the normalized
  horizontal coordinate \<open>clientX / innerWidth \<cdot> 2 - 1\<close>, which lies in \<open>[-1, 1]\<close>.  A render
  tick interpolates the camera's position, with the blend factor \<open>0.05\<close>, toward
  \<open>(targetX, basePosition.y, basePosition.z)\<close> where
  \<open>targetX = basePosition.x + normalizedX \<cdot> 0.5\<close>; so y and z are left unchanged exactly
  when they are those of the base position.
\<close>

theorem parallax_interpolation:
  assumes "0 < innerWidth" "0 \<le> clientX" "clientX \<le> innerWidth"
    and "m' = handleMouseMove clientX innerWidth m"
    and "position cam = (x, y, z)" "basePositionRef m = (bx, by, bz)"
    and "position (snd (mouseUseFrame lib lookAtRef m' cam)) = (x', y', z')"
  shows "mouseX m' = clientX / innerWidth * 2 - 1 \<and> - 1 \<le> mouseX m' \<and> mouseX m' \<le> 1 \<and>
         x' = x + (bx + mouseX m' * 0.5 - x) * 0.05 \<and>
         y' = y + (by - y) * 0.05 \<and> z' = z + (bz - z) * 0.05 \<and>
         (y' = y) = (y = by) \<and> (z' = z) = (z = bz)"
proof -
  have mx: "mouseX m' = clientX / innerWidth * 2 - 1"
    by (simp add: assms(4) handleMouseMove_def)
  define r where "r = clientX / innerWidth"
  have "0 \<le> r" "r \<le> 1"
    using assms(1-3) by (simp_all add: r_def)
  moreover have "mouseX m' = r * 2 - 1" by (simp add: mx r_def)
  ultimately have range: "- 1 \<le> mouseX m'" "mouseX m' \<le> 1"
    by linarith+
  have base: "basePositionRef m' = (bx, by, bz)"
    by (simp add: assms(4,6) handleMouseMove_def)
  have "position (snd (mouseUseFrame lib lookAtRef m' cam)) =
      (x + (bx + mouseX m' * 0.5 - x) * 0.05, y + (by - y) * 0.05, z + (bz - z) * 0.05)"
    by (simp add: mouseUseFrame_def lerp_def LERP_SPEED_def MAX_HORIZONTAL_OFFSET_def Let_def
        assms(5) base split: option.splits)
  with assms(7) have pos: "x' = x + (bx + mouseX m' * 0.5 - x) * 0.05"
    "y' = y + (by - y) * 0.05" "z' = z + (bz - z) * 0.05"
    by simp_all
  have "(y' = y) = (y = by)" "(z' = z) = (z = bz)"
    unfolding pos by auto
  with mx range pos show ?thesis by simp
qed

theorem parallax_interpolation_witness:
  "mouseX (handleMouseMove 960 1280 (attachController exampleCamera)) = 1/2 \<and>
   position (snd (mouseUseFrame snapLibrary None
       (handleMouseMove 960 1280 (attachController exampleCamera)) exampleCamera))
     = (1/80, 8, 5)"
proof -
  let ?m = "attachController exampleCamera"
  let ?m' = "handleMouseMove 960 1280 ?m"
  have h: "(0::real) < 1280" "(0::real) \<le> 960" "(960::real) \<le> 1280" by simp_all
  have cam: "position exampleCamera = (0, 8, 5)" by (simp add: exampleCamera_def)
  have base: "basePositionRef ?m = (0, 8, 5)"
    by (simp add: attachController_def exampleCamera_def)
  obtain x' y' z' where p: "position (snd (mouseUseFrame snapLibrary None ?m' exampleCamera)) = (x', y', z')"
    by (cases "position (snd (mouseUseFrame snapLibrary None ?m' exampleCamera))") auto
  from parallax_interpolation [OF h refl cam base p]
  have "mouseX ?m' = 1/2" "x' = 1/80" "y' = 8" "z' = 5" by simp_all
  with p show ?thesis by simp
qed

lemma zoomedFrames_state:
  "cameraStateOf zoomedFrames = ZoomIn" "zoomInTargetQ zoomedFrames = (0, 0, 0, 1)"
  by (simp_all add: zoomedFrames_def select_def setSelectedFrameId_def zoomInEffect_def
      getObjectByName_def exampleProps_def exampleFrame_def idleFrames_def snapLibrary_def
      calculateLookAtQuaternion_def cameraStateOf_def truthy_def Let_def)

lemma zoomInEffect_unresolved:
  "getObjectByName (objects pr) (selectedFrameId st) = None \<Longrightarrow>
     zoomInEffect lib pr st = st\<lparr>clicked := None\<rparr>"
  by (simp add: zoomInEffect_def Let_def)

lemma ghost_unresolved: "getObjectByName (objects exampleProps) (Some ''ghost'') = None"
  by (simp add: getObjectByName_def exampleProps_def exampleFrame_def)

lemma select_ghost:
  "select snapLibrary exampleProps ''ghost'' idleFrames =
     idleFrames\<lparr>selectedFrameId := Some ''ghost'', clicked := None\<rparr>"
  using ghost_unresolved
  by (simp add: select_def setSelectedFrameId_def zoomInEffect_unresolved idleFrames_def)

lemma select_ghost_zoomed:
  "cameraStateOf (select snapLibrary exampleProps ''ghost'' zoomedFrames) = Idle"
  using ghost_unresolved
  by (simp add: select_def setSelectedFrameId_def zoomInEffect_unresolved cameraStateOf_def
      zoomedFrames_def zoomInEffect_def getObjectByName_def exampleProps_def exampleFrame_def
      idleFrames_def Let_def)

text \<open>
  C8, as the claim states it, fails on the state: selecting an id that resolves to no
  object stores it as the selected id and clears the reference to the clicked object.
  From the idle machine, where \<open>triggerZoomOut\<close> does nothing, the machine comes to a state
  where \<open>triggerZoomOut\<close> starts the zoom out; and the machine zoomed in on \<open>f1\<close> stops
  driving the camera.
\<close>

theorem select_unresolved_counterexample:
  "getObjectByName (objects exampleProps) (Some ''ghost'') = None \<and>
   selectedFrameId idleFrames = None \<and>
   selectedFrameId (select snapLibrary exampleProps ''ghost'' idleFrames) = Some ''ghost'' \<and>
   \<not> isAnimatingOut (triggerZoomOut exampleProps idleFrames) \<and>
   isAnimatingOut (triggerZoomOut exampleProps (select snapLibrary exampleProps ''ghost'' idleFrames)) \<and>
   cameraStateOf zoomedFrames = ZoomIn \<and>
   cameraStateOf (select snapLibrary exampleProps ''ghost'' zoomedFrames) = Idle"
  unfolding select_ghost using ghost_unresolved select_ghost_zoomed zoomedFrames_state(1)
  by (simp add: triggerZoomOut_def truthy_def idleFrames_def)

text \<open>
  C8, amended.  When \<open>select\<close> is called, outside a zoom out, with a new id that resolves
  to no object, the id becomes the selected id and the reference to the clicked object is
  cleared; nothing else of the state changes (no zoom target or look-at orientation is
  computed, the zoomed flag and the field-of-view target are as before), the per-frame
  camera driver leaves the camera's position and orientation as they are, and there is no
  error.
\<close>

theorem select_unresolved:
  assumes "getObjectByName (objects pr) (Some n) = None"
    and "\<not> isAnimatingOut st" "selectedFrameId st \<noteq> Some n"
  shows "select lib pr n st = st\<lparr>selectedFrameId := Some n, clicked := None\<rparr> \<and>
         position (framesUseFrame lib dt (select lib pr n st) cam) = position cam \<and>
         quaternion (framesUseFrame lib dt (select lib pr n st) cam) = quaternion cam \<and>
         cameraStateOf (select lib pr n st) = Idle"
proof -
  have sel: "select lib pr n st = st\<lparr>selectedFrameId := Some n, clicked := None\<rparr>"
    using assms by (simp add: select_def setSelectedFrameId_def zoomInEffect_unresolved)
  have "position (framesUseFrame lib dt (st\<lparr>selectedFrameId := Some n, clicked := None\<rparr>) cam) = position cam"
    "quaternion (framesUseFrame lib dt (st\<lparr>selectedFrameId := Some n, clicked := None\<rparr>) cam) = quaternion cam"
    "cameraStateOf (st\<lparr>selectedFrameId := Some n, clicked := None\<rparr>) = Idle"
    using assms(2) by (simp_all add: framesUseFrame_def cameraStateOf_def Let_def)
  with sel show ?thesis by simp
qed

theorem select_unresolved_witness:
  "select snapLibrary exampleProps ''ghost'' zoomedFrames =
     zoomedFrames\<lparr>selectedFrameId := Some ''ghost'', clicked := None\<rparr> \<and>
   isZoomed (select snapLibrary exampleProps ''ghost'' zoomedFrames) \<and>
   targetFovRef (select snapLibrary exampleProps ''ghost'' zoomedFrames) = 70 \<and>
   position (framesUseFrame snapLibrary (1/60) (select snapLibrary exampleProps ''ghost'' zoomedFrames)
     exampleCamera) = (0, 8, 5)"
proof -
  have z: "zoomedFrames =
      idleFrames\<lparr>selectedFrameId := Some ''f1'', clicked := Some exampleFrame,
        finalZoomInPosition := (0, 1/2, 5/4), frameCenterWorld := (0, 1/2, 7/10),
        zoomInTargetQ := (0, 0, 0, 1), isZoomed := True, targetFovRef := 70\<rparr>"
    by (simp add: zoomedFrames_def select_def setSelectedFrameId_def zoomInEffect_def
        getObjectByName_def exampleProps_def exampleFrame_def idleFrames_def snapLibrary_def
        calculateLookAtQuaternion_def GOLDENRATIO_def Let_def)
  have h: "\<not> isAnimatingOut zoomedFrames" "selectedFrameId zoomedFrames \<noteq> Some ''ghost''"
    by (simp_all add: z idleFrames_def)
  from select_unresolved [OF ghost_unresolved h, of snapLibrary "1/60" exampleCamera]
  have "select snapLibrary exampleProps ''ghost'' zoomedFrames =
      zoomedFrames\<lparr>selectedFrameId := Some ''ghost'', clicked := None\<rparr>"
    and "position (framesUseFrame snapLibrary (1/60)
      (select snapLibrary exampleProps ''ghost'' zoomedFrames) exampleCamera) = position exampleCamera"
    by blast+
  then show ?thesis by (simp add: z exampleCamera_def)
qed

text \<open>
  C6, as the claim states it, fails: the parallax controller looks at its reference on
  every render frame, whatever the state of the state machine.  In a frame of the machine
  zoomed in, both components write the camera orientation.
\<close>

theorem both_write_orientation_counterexample:
  "cameraStateOf zoomedFrames = ZoomIn \<and>
   orientationWriters (snd (snd (renderFrame snapLibrary (Some (0, 39/5, - 3)) (1/60)
      (attachController exampleCamera, zoomedFrames, exampleCamera)))) = [Parallax, StateMachine]"
proof -
  from zoomedFrames_state(1) have "isAnimatingOut zoomedFrames \<or>
      (truthy (selectedFrameId zoomedFrames) \<and> clicked zoomedFrames \<noteq> None)"
    by (auto simp: cameraStateOf_def split: if_splits)
  then have "orientationWriters (snd (snd (renderFrame snapLibrary (Some (0, 39/5, - 3)) (1/60)
      (attachController exampleCamera, zoomedFrames, exampleCamera)))) = [Parallax, StateMachine]"
    by (auto simp: renderFrame_def mouseUseFrame_def framesUseFrame_def Let_def)
  with zoomedFrames_state(1) show ?thesis by simp
qed

text \<open>
  C6, amended.  In every render frame the parallax controller writes the camera
  orientation when its look-at reference is set, whatever the state of the state machine,
  and the state machine writes it when its state is not Idle.  When both write, the state
  machine writes last, and what it writes is its damping applied to the orientation that
  the look-at has just written.
\<close>

theorem orientation_writers:
  "orientationWriters (snd (snd (renderFrame lib lookAtRef dt (m, st, cam)))) =
     (if lookAtRef = None then [] else [Parallax]) @
     (if cameraStateOf st = Idle then [] else [StateMachine]) \<and>
   (lookAtRef = Some target \<longrightarrow>
      quaternion (snd (snd (renderFrame lib lookAtRef dt (m, st, cam)))) =
        (let looked = lookAt lib (position (snd (mouseUseFrame lib lookAtRef m cam))) target defaultUp
         in case cameraStateOf st of
              Idle \<Rightarrow> looked
            | ZoomIn \<Rightarrow> dampQ lib looked (zoomInTargetQ st) 0.4 dt
            | ZoomingOut \<Rightarrow> dampQ lib looked (zoomOutTargetQ st) 0.5 dt))"
  by (cases lookAtRef)
    (auto simp: renderFrame_def mouseUseFrame_def framesUseFrame_def cameraStateOf_def Let_def)

theorem orientation_writers_witness:
  "orientationWriters (snd (snd (renderFrame snapLibrary (Some (0, 39/5, - 3)) (1/60)
      (attachController exampleCamera, idleFrames, exampleCamera)))) = [Parallax] \<and>
   quaternion (snd (snd (renderFrame snapLibrary (Some (0, 39/5, - 3)) (1/60)
      (attachController exampleCamera, zoomedFrames, exampleCamera)))) = (0, 0, 0, 1)"
proof -
  have idle: "cameraStateOf idleFrames = Idle"
    by (simp add: cameraStateOf_def idleFrames_def truthy_def)
  from orientation_writers [of snapLibrary "Some (0, 39/5, - 3)" "1/60"
      "attachController exampleCamera" idleFrames exampleCamera "(0, 39/5, - 3)"]
    orientation_writers [of snapLibrary "Some (0, 39/5, - 3)" "1/60"
      "attachController exampleCamera" zoomedFrames exampleCamera "(0, 39/5, - 3)"]
    idle zoomedFrames_state
  show ?thesis by (simp add: snapLibrary_def Let_def)
qed

lemma gsapTick_tween_running:
  "timeline st = [Tween t0 d a b] \<Longrightarrow> now - t0 < d \<Longrightarrow>
     gsapTick lib pr (st, cam) now = (st, cam\<lparr>position := lerp a b (ease lib ((now - t0) / d))\<rparr>)"
  by (simp add: gsapTick_def)

lemma gsapTick_tween_done:
  "timeline st = [Tween t0 d a b] \<Longrightarrow> d \<le> now - t0 \<Longrightarrow>
     gsapTick lib pr (st, cam) now = (st\<lparr>timeline := [DelayedCall (now + 0.5)]\<rparr>, cam\<lparr>position := b\<rparr>)"
  by (simp add: gsapTick_def)

lemma gsapTick_delay_waiting:
  "timeline st = [DelayedCall due] \<Longrightarrow> now < due \<Longrightarrow> gsapTick lib pr (st, cam) now = (st, cam)"
  by (simp add: gsapTick_def)

lemma gsapTick_delay_due:
  "timeline st = [DelayedCall due] \<Longrightarrow> due \<le> now \<Longrightarrow>
     gsapTick lib pr (st, cam) now = ((zoomOutComplete lib pr st)\<lparr>timeline := []\<rparr>, cam)"
  by (simp add: gsapTick_def)

lemma gsapTick_empty:
  "timeline st = [] \<Longrightarrow> gsapTick lib pr (st, cam) now = (st, cam)"
  by (simp add: gsapTick_def)

lemma gsapTicks_append:
  "gsapTicks lib pr (xs @ ys) w = gsapTicks lib pr ys (gsapTicks lib pr xs w)"
  by (simp add: gsapTicks_def)

lemma gsapTicks_Cons:
  "gsapTicks lib pr (t # ts) w = gsapTicks lib pr ts (gsapTick lib pr w t)"
  by (simp add: gsapTicks_def)

lemma gsapTicks_Nil: "gsapTicks lib pr [] w = w"
  by (simp add: gsapTicks_def)

lemma gsapTicks_tween_running:
  "timeline st = [Tween t0 d a b] \<Longrightarrow> \<forall>t \<in> set ts. t - t0 < d \<Longrightarrow>
     fst (gsapTicks lib pr ts (st, cam)) = st"
  by (induction ts arbitrary: cam) (simp_all add: gsapTicks_Cons gsapTicks_Nil gsapTick_tween_running)

lemma gsapTicks_delay_waiting:
  "timeline st = [DelayedCall due] \<Longrightarrow> \<forall>t \<in> set ts. t < due \<Longrightarrow>
     gsapTicks lib pr ts (st, cam) = (st, cam)"
  by (induction ts) (simp_all add: gsapTicks_Cons gsapTicks_Nil gsapTick_delay_waiting)

lemma gsapTicks_empty:
  "timeline st = [] \<Longrightarrow> gsapTicks lib pr ts (st, cam) = (st, cam)"
  by (induction ts) (simp_all add: gsapTicks_Cons gsapTicks_Nil gsapTick_empty)

lemma gsapTicks_not_before:
  assumes "\<forall>t \<in> set ts. t < t0 + 17/10"
    and "timeline st = [Tween t0 (12/10) a b] \<or>
         (\<exists>due. timeline st = [DelayedCall due] \<and> t0 + 17/10 \<le> due)"
  shows "\<exists>tasks. fst (gsapTicks lib pr ts (st, cam)) = st\<lparr>timeline := tasks\<rparr>"
  using assms
proof (induction ts arbitrary: st cam)
  case Nil
  have "st = st\<lparr>timeline := timeline st\<rparr>" by simp
  then show ?case unfolding gsapTicks_Nil fst_conv by (rule exI)
next
  case (Cons t ts)
  from Cons.prems(1) have t: "t < t0 + 17/10" and ts: "\<forall>t \<in> set ts. t < t0 + 17/10"
    by simp_all
  from Cons.prems(2) show ?case
  proof
    assume tw: "timeline st = [Tween t0 (12/10) a b]"
    show ?thesis
    proof (cases "t - t0 < 12/10")
      case True
      from Cons.IH [OF ts Cons.prems(2)] gsapTick_tween_running [OF tw True]
      show ?thesis by (simp add: gsapTicks_Cons)
    next
      case False
      then have fin: "12/10 \<le> t - t0" by simp
      let ?st = "st\<lparr>timeline := [DelayedCall (t + 0.5)]\<rparr>"
      have "timeline ?st = [Tween t0 (12/10) a b] \<or>
          (\<exists>due. timeline ?st = [DelayedCall due] \<and> t0 + 17/10 \<le> due)"
        using fin by simp
      from Cons.IH [OF ts this] obtain tasks where
        "fst (gsapTicks lib pr ts (?st, cam\<lparr>position := b\<rparr>)) = ?st\<lparr>timeline := tasks\<rparr>"
        by blast
      with gsapTick_tween_done [OF tw fin, of lib pr cam]
      have "fst (gsapTicks lib pr (t # ts) (st, cam)) = st\<lparr>timeline := tasks\<rparr>"
        by (simp add: gsapTicks_Cons)
      then show ?thesis by (rule exI)
    qed
  next
    assume "\<exists>due. timeline st = [DelayedCall due] \<and> t0 + 17/10 \<le> due"
    then obtain due where dc: "timeline st = [DelayedCall due]" and due: "t0 + 17/10 \<le> due"
      by blast
    from t due have "t < due" by simp
    from Cons.IH [OF ts Cons.prems(2)] gsapTick_delay_waiting [OF dc this]
    show ?thesis by (simp add: gsapTicks_Cons)
  qed
qed

lemma zoomOutComplete_selected:
  "selectedFrameId st \<noteq> None \<Longrightarrow>
     zoomOutComplete lib pr st =
       st\<lparr>clearActiveClassesCalls := clearActiveClassesCalls st + 1, isAnimatingOut := False,
          isZoomed := False, selectedFrameId := None, clicked := None\<rparr>"
  by (auto simp: zoomOutComplete_def setSelectedFrameId_def zoomInEffect_def getObjectByName_def Let_def)

lemma fireTriggerZoomOut_zoomed:
  "\<not> isAnimatingOut st \<Longrightarrow> truthy (selectedFrameId st) \<Longrightarrow> timeline st = [] \<Longrightarrow>
     fireTriggerZoomOut lib pr t0 cam st =
       st\<lparr>targetFovRef := initialFov pr, isAnimatingOut := True,
          zoomOutTargetQ := calculateLookAtQuaternion lib (section2Position pr) (section2LookAtTarget pr),
          timeline := [Tween t0 1.2 (position cam) (section2Position pr)]\<rparr>"
  by (simp add: fireTriggerZoomOut_def triggerZoomOut_def zoomOutEffect_def Let_def)


text \<open>
  C3.  When \<open>triggerZoomOut\<close> fires at time \<open>t0\<close> from the zoomed-in state, gsap is asked
  for a tween of the camera position of duration \<open>1.2\<close> to the secondary viewpoint.  On
  engine ticks before \<open>t0 + 1.2 + 0.5\<close> the content registry is not called, the
  animating-out flag stays set and the selected id stays.  The tick \<open>T1\<close> that completes
  the tween leaves the camera at the secondary viewpoint; after the ticks up to the first
  one, \<open>T2\<close>, at least \<open>0.5\<close> later, \<open>clearActiveClasses\<close> has been called exactly once,
  the animating-out flag and the zoomed flag are cleared, the selected id is \<open>null\<close> and the
  machine is Idle, and later ticks change nothing.
\<close>

theorem zoom_out_completes:
  assumes "\<not> isAnimatingOut st" "truthy (selectedFrameId st)" "timeline st = []"
    and "st1 = fireTriggerZoomOut lib pr t0 cam st"
    and "\<forall>t \<in> set ts. t < t0 + 1.2 + 0.5"
    and "\<forall>t \<in> set ts1. t < t0 + 1.2" "t0 + 1.2 \<le> T1"
    and "\<forall>t \<in> set ts2. t < T1 + 0.5" "T1 + 0.5 \<le> T2"
    and "early = fst (gsapTicks lib pr ts (st1, cam))"
    and "final = fst (gsapTicks lib pr (ts1 @ [T1] @ ts2 @ [T2] @ ts3) (st1, cam))"
  shows "isAnimatingOut st1 \<and>
         timeline st1 = [Tween t0 1.2 (position cam) (section2Position pr)] \<and>
         clearActiveClassesCalls early = clearActiveClassesCalls st \<and>
         isAnimatingOut early \<and> selectedFrameId early = selectedFrameId st \<and>
         position (snd (gsapTicks lib pr (ts1 @ [T1]) (st1, cam))) = section2Position pr \<and>
         clearActiveClassesCalls final = clearActiveClassesCalls st + 1 \<and>
         \<not> isAnimatingOut final \<and> \<not> isZoomed final \<and> selectedFrameId final = None \<and>
         cameraStateOf final = Idle \<and> timeline final = []"
proof -
  let ?to = "section2Position pr"
  have st1: "st1 = st\<lparr>targetFovRef := initialFov pr, isAnimatingOut := True,
      zoomOutTargetQ := calculateLookAtQuaternion lib (section2Position pr) (section2LookAtTarget pr),
      timeline := [Tween t0 1.2 (position cam) ?to]\<rparr>"
    unfolding assms(4) by (rule fireTriggerZoomOut_zoomed [OF assms(1-3)])
  have tw: "timeline st1 = [Tween t0 (12/10) (position cam) ?to]"
    by (simp add: st1)
  \<comment> \<open>not before the tween and the delay\<close>
  have "\<forall>t \<in> set ts. t < t0 + 17/10"
  proof
    fix t assume "t \<in> set ts"
    with assms(5) have "t < t0 + 1.2 + 0.5" by blast
    then show "t < t0 + 17/10" by simp
  qed
  from gsapTicks_not_before [OF this disjI1 [OF tw], of lib pr cam] assms(10)
  obtain tasks where early: "early = st1\<lparr>timeline := tasks\<rparr>" by blast
  \<comment> \<open>the tween runs, then completes at \<open>T1\<close>\<close>
  have run1: "\<forall>t \<in> set ts1. t - t0 < 12/10" using assms(6) by auto
  obtain cam1 where w1: "gsapTicks lib pr ts1 (st1, cam) = (st1, cam1)"
    using gsapTicks_tween_running [OF tw run1, of lib pr cam]
    by (cases "gsapTicks lib pr ts1 (st1, cam)") auto
  have fin1: "12/10 \<le> T1 - t0" using assms(7) by simp
  let ?st2 = "st1\<lparr>timeline := [DelayedCall (T1 + 0.5)]\<rparr>"
  let ?cam2 = "cam1\<lparr>position := ?to\<rparr>"
  have w2: "gsapTicks lib pr (ts1 @ [T1]) (st1, cam) = (?st2, ?cam2)"
    using gsapTick_tween_done [OF tw fin1, of lib pr cam1]
    by (simp add: gsapTicks_append w1 gsapTicks_Cons gsapTicks_Nil)
  \<comment> \<open>the delay, then the callback at \<open>T2\<close>\<close>
  have dc: "timeline ?st2 = [DelayedCall (T1 + 0.5)]" by simp
  have w3: "gsapTicks lib pr ts2 (?st2, ?cam2) = (?st2, ?cam2)"
    by (rule gsapTicks_delay_waiting [OF dc assms(8)])
  let ?st4 = "(zoomOutComplete lib pr ?st2)\<lparr>timeline := []\<rparr>"
  have w4: "gsapTick lib pr (?st2, ?cam2) T2 = (?st4, ?cam2)"
    by (rule gsapTick_delay_due [OF dc assms(9)])
  have w5: "gsapTicks lib pr ts3 (?st4, ?cam2) = (?st4, ?cam2)"
    by (rule gsapTicks_empty) simp
  have "final =
      fst (gsapTicks lib pr ts3 (gsapTick lib pr (gsapTicks lib pr ts2 (gsapTicks lib pr (ts1 @ [T1]) (st1, cam))) T2))"
    by (simp add: assms(11) gsapTicks_append gsapTicks_Cons gsapTicks_Nil)
  then have final: "final = ?st4"
    unfolding w2 w3 w4 w5 fst_conv .
  from assms(2) have sel: "selectedFrameId ?st2 \<noteq> None"
    by (auto simp: st1 truthy_def split: option.splits)
  have st4: "?st4 = ?st2\<lparr>clearActiveClassesCalls := clearActiveClassesCalls ?st2 + 1,
      isAnimatingOut := False, isZoomed := False, selectedFrameId := None, clicked := None,
      timeline := []\<rparr>"
    unfolding zoomOutComplete_selected [OF sel] by simp
  have a: "isAnimatingOut st1" "timeline st1 = [Tween t0 1.2 (position cam) ?to]"
    by (simp_all add: st1)
  have b: "clearActiveClassesCalls early = clearActiveClassesCalls st"
    "isAnimatingOut early" "selectedFrameId early = selectedFrameId st"
    by (simp_all add: early st1)
  have c: "position (snd (gsapTicks lib pr (ts1 @ [T1]) (st1, cam))) = ?to"
    by (simp add: w2)
  have d: "clearActiveClassesCalls final = clearActiveClassesCalls st + 1"
    "\<not> isAnimatingOut final" "\<not> isZoomed final" "selectedFrameId final = None"
    "cameraStateOf final = Idle" "timeline final = []"
    unfolding final st4 by (simp_all add: st1 cameraStateOf_def truthy_def)
  from a b c d show ?thesis by blast
qed

lemma zoomedFrames_control:
  "\<not> isAnimatingOut zoomedFrames" "truthy (selectedFrameId zoomedFrames)"
  "timeline zoomedFrames = []" "clearActiveClassesCalls zoomedFrames = 0"
  by (simp_all add: zoomedFrames_def select_def setSelectedFrameId_def zoomInEffect_def
      getObjectByName_def exampleProps_def exampleFrame_def idleFrames_def truthy_def Let_def)

theorem zoom_out_completes_witness:
  "clearActiveClassesCalls (fst (gsapTicks snapLibrary exampleProps [1, 8/5]
      (fireTriggerZoomOut snapLibrary exampleProps 0 exampleCamera zoomedFrames, exampleCamera))) = 0 \<and>
   position (snd (gsapTicks snapLibrary exampleProps [1/2, 5/4]
      (fireTriggerZoomOut snapLibrary exampleProps 0 exampleCamera zoomedFrames, exampleCamera)))
     = (0, 4/5, 15/2) \<and>
   clearActiveClassesCalls (fst (gsapTicks snapLibrary exampleProps [1/2, 5/4, 3/2, 7/4, 2]
      (fireTriggerZoomOut snapLibrary exampleProps 0 exampleCamera zoomedFrames, exampleCamera))) = 1 \<and>
   selectedFrameId (fst (gsapTicks snapLibrary exampleProps [1/2, 5/4, 3/2, 7/4, 2]
      (fireTriggerZoomOut snapLibrary exampleProps 0 exampleCamera zoomedFrames, exampleCamera))) = None \<and>
   cameraStateOf (fst (gsapTicks snapLibrary exampleProps [1/2, 5/4, 3/2, 7/4, 2]
      (fireTriggerZoomOut snapLibrary exampleProps 0 exampleCamera zoomedFrames, exampleCamera))) = Idle"
proof -
  have early: "\<forall>t \<in> set [1, 8/5 :: real]. t < 0 + 1.2 + 0.5" by simp
  have ts1: "\<forall>t \<in> set [1/2 :: real]. t < 0 + 1.2" by simp
  have T1: "(0::real) + 1.2 \<le> 5/4" by simp
  have ts2: "\<forall>t \<in> set [3/2 :: real]. t < 5/4 + 0.5" by simp
  have T2: "(5/4 :: real) + 0.5 \<le> 7/4" by simp
  from zoom_out_completes [OF zoomedFrames_control(1-3) refl early ts1 T1 ts2 T2 refl refl,
      of snapLibrary exampleProps exampleCamera "[2]"]
  show ?thesis by (simp add: zoomedFrames_control(4) exampleProps_def)
qed

end
